theory Spec2Isabelle
  imports Main
begin

section \<open>The retrying API client of \<open>AI_marketing.py\<close>\<close>

text \<open>
  The development embeds \<open>get_bot_response\<close> (lines 29-109 of \<open>src/AI_marketing.py\<close>):
  the construction of the request from the chat history, the retry loop around
  \<open>requests.post\<close>, and the extraction of the answer text and the grounding sources from
  the parsed response body. Everything the function does beyond computing a value is
  explicit: a raised exception is the \<open>Inl\<close> side of a sum, the calls of \<open>time.sleep\<close>
  and \<open>requests.post\<close> are logged in a record of effects, and the network is a parameter.
  Of the \<open>print\<close> calls, the two that can raise are part of the model.
\<close>

subsection \<open>Values of a parsed JSON body\<close>

text \<open>
  \<open>response.json()\<close> yields Python objects: \<open>None\<close>, booleans, numbers, strings, lists
  and dictionaries with string keys. A dictionary is an association list in which the first
  binding of a key is the value the dictionary holds for it. Numbers are integers; a JSON
  number with a fraction is outside the model. A string is the list of the bytes of its
  UTF-8 encoding, so a character is a leading byte and the continuation bytes (\<open>0x80\<close> to
  \<open>0xBF\<close>) after it. The JSON parser accepts an escaped lone surrogate such as
  \<open>"\ud800"\<close>; such a character is the three bytes its code point would have in
  UTF-8: \<open>0xED\<close>, a byte from \<open>0xA0\<close> to \<open>0xBF\<close>, and one more continuation byte.
\<close>

datatype json =
    JNull
  | JBool bool
  | JInt int
  | JStr string
  | JArr "json list"
  | JObj "(string \<times> json) list"

text \<open>
  The exceptions the function can meet. \<open>RequestException\<close> stands for
  \<open>requests.exceptions.RequestException\<close> and its subclasses (connection errors,
  timeouts); \<open>PyException v\<close> is \<open>Exception(v)\<close> as raised by the source itself; the others
  are built-in errors: the four that indexing, attribute access, membership tests and
  iteration raise on a value of the wrong shape, and the one that \<open>print\<close> raises on a
  text that standard output cannot encode. All of them are subclasses of \<open>Exception\<close>.
\<close>

datatype exn =
    RequestException string
  | PyException json
  | IndexError
  | KeyError
  | AttributeError
  | TypeError
  | UnicodeEncodeError

fun is_request_exception :: "exn \<Rightarrow> bool" where
  "is_request_exception (RequestException _) = True"
| "is_request_exception _ = False"

text \<open>Python's truth value of an object (\<open>if x\<close>, \<open>not x\<close>, \<open>x and y\<close>).\<close>

fun truthy :: "json \<Rightarrow> bool" where
  "truthy JNull = False"
| "truthy (JBool b) = b"
| "truthy (JInt i) = (i \<noteq> 0)"
| "truthy (JStr s) = (s \<noteq> [])"
| "truthy (JArr xs) = (xs \<noteq> [])"
| "truthy (JObj kvs) = (kvs \<noteq> [])"

text \<open>\<open>x.get(key, default)\<close>: only a dictionary has the method.\<close>

fun py_get :: "json \<Rightarrow> string \<Rightarrow> json \<Rightarrow> exn + json" where
  "py_get (JObj kvs) k d = Inr (case map_of kvs k of None \<Rightarrow> d | Some v \<Rightarrow> v)"
| "py_get _ k d = Inl AttributeError"

definition is_continuation :: "char \<Rightarrow> bool" where
  "is_continuation c = (0x80 \<le> (of_char c :: nat) \<and> (of_char c :: nat) < 0xC0)"

text \<open>
  \<open>x[0]\<close>: the first element of a list, the first character of a string (as a string of
  one character), \<open>IndexError\<close> when either is empty, \<open>KeyError\<close> on a dictionary (its
  keys are strings, never the integer 0), \<open>TypeError\<close> on anything else.
\<close>

fun py_index0 :: "json \<Rightarrow> exn + json" where
  "py_index0 (JArr []) = Inl IndexError"
| "py_index0 (JArr (x # xs)) = Inr x"
| "py_index0 (JStr []) = Inl IndexError"
| "py_index0 (JStr (c # cs)) = Inr (JStr (c # takeWhile is_continuation cs))"
| "py_index0 (JObj kvs) = Inl KeyError"
| "py_index0 _ = Inl TypeError"

text \<open>Sequencing of computations that may raise.\<close>

definition bind_exn :: "exn + 'a \<Rightarrow> ('a \<Rightarrow> exn + 'b) \<Rightarrow> exn + 'b" where
  "bind_exn m f = (case m of Inl e \<Rightarrow> Inl e | Inr v \<Rightarrow> f v)"

subsection \<open>Request construction (lines 35-48)\<close>

text \<open>
  A message of the chat history is the dictionary \<open>{"role": r, "parts": [{"text": t}]}\<close>
  that the caller builds (line 153): \<open>parts\<close> is the list of the texts of its parts.
  The function reads the \<open>role\<close> only.
\<close>

record turn =
  role :: string
  parts :: "string list"

datatype tool = google_search

record payload =
  contents :: "turn list"
  tools :: "tool list"

definition SYSTEM_PROMPT :: string where
  "SYSTEM_PROMPT =
     [CHR 0x0A] @
     ''You are an expert Digital Marketing Strategist. Your name is 'Marketing Expert'.'' @ [CHR 0x0A] @
     ''Your goal is to provide insightful, actionable, and up-to-date advice on all aspects of digital marketing.'' @ [CHR 0x0A] @
     ''When users ask for information, strategies, or trends, you MUST leverage your built-in search capabilities to find the most current and relevant information.'' @ [CHR 0x0A] @
     ''Always cite your sources when you use search information, providing the title and URI.'' @ [CHR 0x0A] @
     ''Your responses should be professional, clear, and structured.'' @ [CHR 0x0A] @
     ''Use markdown (like lists, bolding, and code blocks for examples) to make your advice easy to understand and follow.'' @ [CHR 0x0A] @
     ''Always be helpful, encouraging, and focused on helping the user achieve their marketing goals.'' @ [CHR 0x0A]"

definition max_history_length :: nat where
  "max_history_length = 10"

text \<open>
  The slice \<open>xs[-n:]\<close> for a positive \<open>n\<close>: the whole list when it has at most \<open>n\<close>
  elements, its last \<open>n\<close> elements otherwise.
\<close>

definition py_last :: "nat \<Rightarrow> 'a list \<Rightarrow> 'a list" where
  "py_last n xs = drop (length xs - n) xs"

definition system_message :: turn where
  "system_message = \<lparr>role = ''system'', parts = [SYSTEM_PROMPT]\<rparr>"

definition build_payload :: "turn list \<Rightarrow> payload" where
  "build_payload chat_history =
     (let recent_history_payload = filter (\<lambda>msg. role msg \<noteq> ''system'') chat_history;
          recent_history_payload = py_last max_history_length recent_history_payload;
          final_payload_contents = [system_message] @ recent_history_payload
      in \<lparr>contents = final_payload_contents, tools = [google_search]\<rparr>)"

subsection \<open>Reading the response (lines 61-96)\<close>

text \<open>
  \<open>k in x\<close> for a string \<open>k\<close>: a key of a dictionary, an element of a list, a substring of
  a string; \<open>TypeError\<close> on \<open>None\<close>, booleans and numbers.
\<close>

fun is_substring :: "string \<Rightarrow> string \<Rightarrow> bool" where
  "is_substring k [] = (k = [])"
| "is_substring k (c # cs) = (take (length k) (c # cs) = k \<or> is_substring k cs)"

fun py_contains :: "string \<Rightarrow> json \<Rightarrow> exn + bool" where
  "py_contains k (JObj kvs) = Inr (map_of kvs k \<noteq> None)"
| "py_contains k (JArr xs) = Inr (JStr k \<in> set xs)"
| "py_contains k (JStr s) = Inr (is_substring k s)"
| "py_contains k _ = Inl TypeError"

text \<open>
  \<open>x[k]\<close> for a string \<open>k\<close>: the value of a dictionary at a key it has, \<open>KeyError\<close> at a
  key it lacks, \<open>TypeError\<close> on everything else (lists and strings take integer indices,
  the rest is not subscriptable).
\<close>

fun py_getitem :: "json \<Rightarrow> string \<Rightarrow> exn + json" where
  "py_getitem (JObj kvs) k = (case map_of kvs k of None \<Rightarrow> Inl KeyError | Some v \<Rightarrow> Inr v)"
| "py_getitem _ k = Inl TypeError"

text \<open>
  \<open>for a in x\<close>: the elements of a list, the characters of a string, the keys of a
  dictionary, each key once; \<open>TypeError\<close> on \<open>None\<close>, booleans and numbers.
\<close>

function utf8_chars :: "string \<Rightarrow> string list" where
  "utf8_chars [] = []"
| "utf8_chars (c # cs) =
     (c # takeWhile is_continuation cs) # utf8_chars (dropWhile is_continuation cs)"
  by pat_completeness auto
termination
  by (relation "measure length") (auto simp: length_dropWhile_le le_imp_less_Suc)

fun py_iter :: "json \<Rightarrow> exn + json list" where
  "py_iter (JArr xs) = Inr xs"
| "py_iter (JStr s) = Inr (map JStr (utf8_chars s))"
| "py_iter (JObj kvs) = Inr (map JStr (remdups (map fst kvs)))"
| "py_iter _ = Inl TypeError"

record source =
  uri :: json
  title :: json

text \<open>
  One round of the list comprehension of lines 75-82. The condition
  \<open>attr.get('web') and attr.get('web').get('uri') and attr.get('web').get('title')\<close> is
  evaluated from left to right and stops at the first falsy operand; when it holds, the
  entry is built from the same two values.
\<close>

definition attribution_source :: "json \<Rightarrow> exn + source option" where
  "attribution_source attr =
     bind_exn (py_get attr ''web'' JNull) (\<lambda>web.
       if \<not> truthy web then Inr None
       else bind_exn (py_get web ''uri'' JNull) (\<lambda>u.
         if \<not> truthy u then Inr None
         else bind_exn (py_get web ''title'' JNull) (\<lambda>t.
           if \<not> truthy t then Inr None
           else Inr (Some \<lparr>uri = u, title = t\<rparr>))))"

fun collect_sources :: "json list \<Rightarrow> exn + source list" where
  "collect_sources [] = Inr []"
| "collect_sources (attr # attrs) =
     bind_exn (attribution_source attr) (\<lambda>kept.
       bind_exn (collect_sources attrs) (\<lambda>rest.
         Inr (case kept of None \<Rightarrow> rest | Some s \<Rightarrow> s # rest)))"

text \<open>Lines 72-82: the sources of a candidate.\<close>

definition extract_sources :: "json \<Rightarrow> exn + source list" where
  "extract_sources candidate =
     bind_exn (py_get candidate ''groundingMetadata'' (JObj [])) (\<lambda>grounding_metadata.
       if \<not> truthy grounding_metadata then Inr []
       else bind_exn (py_contains ''groundingAttributions'' grounding_metadata) (\<lambda>present.
         if \<not> present then Inr []
         else bind_exn (py_getitem grounding_metadata ''groundingAttributions'') (\<lambda>attributions.
           bind_exn (py_iter attributions) collect_sources)))"

text \<open>
  Lines 62-84, from the parsed body \<open>result\<close> to the pair that line 84 returns, or to the
  exception that leaves the block.
\<close>

definition read_result :: "json \<Rightarrow> exn + (json \<times> source list)" where
  "read_result result =
     bind_exn (bind_exn (py_get result ''candidates'' (JArr [JObj []])) py_index0) (\<lambda>candidate.
     bind_exn (bind_exn (bind_exn (py_get candidate ''content'' (JObj []))
                 (\<lambda>c. py_get c ''parts'' (JArr [JObj []]))) py_index0) (\<lambda>content.
     bind_exn (py_get content ''text'' (JStr [])) (\<lambda>text.
       if \<not> truthy text then Inl (PyException (JStr ''Invalid response structure from API.''))
       else bind_exn (extract_sources candidate) (\<lambda>sources. Inr (text, sources)))))"

text \<open>
  A response of the transport: its status code and what \<open>response.json()\<close> does, which
  is to return the parsed body or to raise. \<open>response.ok\<close> is the library's property: false
  exactly for the status codes from 400 to 599.
\<close>

record response =
  status_code :: int
  json_body :: "exn + json"

definition ok :: "response \<Rightarrow> bool" where
  "ok r = (\<not> (400 \<le> status_code r \<and> status_code r < 600))"

text \<open>The decimal digits of an integer, as an f-string prints it.\<close>

fun digits :: "nat \<Rightarrow> string" where
  "digits n = (if n < 10 then [''0123456789'' ! n]
               else digits (n div 10) @ [''0123456789'' ! (n mod 10)])"

definition py_str_int :: "int \<Rightarrow> string" where
  "py_str_int i = (if i < 0 then CHR ''-'' # digits (nat (- i)) else digits (nat i))"

subsection \<open>Printing (lines 95 and 106)\<close>

text \<open>
  Standard output encodes to UTF-8 with the strict error handler, Python's default, so
  \<open>print\<close> raises \<open>UnicodeEncodeError\<close> exactly when its text holds a lone surrogate.
  \<open>str\<close> of a string is the string itself; \<open>str\<close> of every other object is ASCII or a
  \<open>repr\<close>, which escapes surrogates. So the print of line 68, whose \<open>result\<close> is a
  dictionary, and the print of line 88, whose text is ASCII, never raise and are left out,
  as is the print of line 99: the text of a request exception is the message that the
  library composes, and the string of \<open>RequestException\<close> here only names it. The prints
  of line 95 and of line 106 can raise: the first prints \<open>error_result\<close>, which may be a
  string, the second the text of the exception, which for \<open>Exception(v)\<close> is \<open>str(v)\<close>
  and for a built-in error the interpreter's ASCII message.
\<close>

fun has_surrogate :: "string \<Rightarrow> bool" where
  "has_surrogate (a # b # cs) =
     ((a = CHR 0xED \<and> 0xA0 \<le> (of_char b :: nat) \<and> (of_char b :: nat) \<le> 0xBF) \<or>
      has_surrogate (b # cs))"
| "has_surrogate _ = False"

text \<open>Whether \<open>print(v)\<close> returns, and whether \<open>print(f"...{e}")\<close> does.\<close>

fun str_encodable :: "json \<Rightarrow> bool" where
  "str_encodable (JStr s) = (\<not> has_surrogate s)"
| "str_encodable _ = True"

fun printable :: "exn \<Rightarrow> bool" where
  "printable (PyException v) = str_encodable v"
| "printable _ = True"

subsection \<open>One attempt (lines 59-96)\<close>

text \<open>
  The first component of the returned pair is a Python object: the text of the model as
  line 65 read it, or the string of line 107. \<open>Apology e\<close> is the f-string
  \<open>f"Sorry, I encountered an error: {e}"\<close> for the exception \<open>e\<close>.
\<close>

datatype answer = Answer json | Apology exn

text \<open>
  The way control leaves the \<open>try\<close> block of lines 59-96 when no exception does: the
  \<open>return\<close> of line 84, or the end of the \<open>elif\<close> branch, which has slept and goes round
  the loop again.
\<close>

datatype attempt = Returned "answer \<times> source list" | Backoff

definition try_block :: "exn + response \<Rightarrow> exn + attempt" where
  "try_block posted =
     bind_exn posted (\<lambda>response.
       if ok response then
         bind_exn (json_body response) (\<lambda>result.
           bind_exn (read_result result) (\<lambda>(text, sources).
             Inr (Returned (Answer text, sources))))
       else if status_code response = 429 \<or> status_code response \<ge> 500 then Inr Backoff
       else
         bind_exn (json_body response) (\<lambda>error_result.
           if \<not> str_encodable error_result then Inl UnicodeEncodeError
           else
             bind_exn (py_get error_result ''error'' (JObj [])) (\<lambda>err.
               bind_exn (py_get err ''message''
                   (JStr (''HTTP error! status: '' @ py_str_int (status_code response)))) (\<lambda>message.
                 Inl (PyException message)))))"

subsection \<open>The retry loop (lines 52-109)\<close>

text \<open>
  The transport is the world outside: what the \<open>n\<close>-th call of \<open>requests.post\<close> (counting
  from 0) does with the request it is given, which is to raise or to return a response.
  The effects of a run are the arguments of \<open>time.sleep\<close> and the requests passed to
  \<open>requests.post\<close>, each in the order of the calls.
\<close>

type_synonym transport = "nat \<Rightarrow> payload \<Rightarrow> exn + response"

record effects =
  sleeps :: "int list"
  posts :: "payload list"

definition max_retries :: nat where
  "max_retries = 5"

definition max_retries_reached :: exn where
  "max_retries_reached =
     PyException (JStr ''Max retries reached. Could not get a response from the API.'')"

definition backoff :: "int \<Rightarrow> effects \<Rightarrow> effects" where
  "backoff delay fx = fx\<lparr>sleeps := sleeps fx @ [delay]\<rparr>"

function retry_loop ::
  "transport \<Rightarrow> payload \<Rightarrow> nat \<Rightarrow> int \<Rightarrow> effects \<Rightarrow> (exn + answer \<times> source list) \<times> effects"
where
  "retry_loop post payload retries delay fx =
     (if retries < max_retries then
        (let posted = post (length (posts fx)) payload;
             fx = fx\<lparr>posts := posts fx @ [payload]\<rparr>
         in case try_block posted of
              Inr (Returned r) \<Rightarrow> (Inr r, fx)
            | Inr Backoff \<Rightarrow> retry_loop post payload (retries + 1) (delay * 2) (backoff delay fx)
            | Inl e \<Rightarrow>
                if is_request_exception e then
                  if retries \<ge> max_retries - 1 then (Inl e, fx)
                  else retry_loop post payload (retries + 1) (delay * 2) (backoff delay fx)
                else if \<not> printable e then (Inl UnicodeEncodeError, fx)
                else (Inr (Apology e, []), fx))
      else (Inl max_retries_reached, fx))"
  by pat_completeness auto
termination
  by (relation "measure (\<lambda>(post, payload, retries, delay, fx). max_retries - retries)") auto

definition get_bot_response ::
  "transport \<Rightarrow> turn list \<Rightarrow> (exn + answer \<times> source list) \<times> effects"
where
  "get_bot_response post chat_history =
     retry_loop post (build_payload chat_history) 0 1 \<lparr>sleeps = [], posts = []\<rparr>"

subsection \<open>The chat history as a list object\<close>

text \<open>
  A Python list is an object that the caller and the function share. The store maps the
  address of each list object to the turns it holds; \<open>next_addr\<close> is the first address
  not yet in use, so the lists that exist are the ones below it.
\<close>

type_synonym addr = nat

record store =
  cells :: "addr \<Rightarrow> turn list"
  next_addr :: addr

text \<open>Every expression that builds a list makes a new list object, at an address not used before.\<close>

definition new_list :: "turn list \<Rightarrow> store \<Rightarrow> addr \<times> store" where
  "new_list xs s =
     (next_addr s, s\<lparr>cells := (cells s)(next_addr s := xs), next_addr := next_addr s + 1\<rparr>)"

text \<open>
  Lines 38-43 on the store: the comprehension of line 38, the slice of line 39, the list
  display \<open>[system_message]\<close> and the concatenation of line 43 each make a new list; the
  assignments rebind local names. No statement of the function assigns to an element of a
  list, appends to one or deletes from one.
\<close>

definition build_payload_store :: "addr \<Rightarrow> store \<Rightarrow> addr \<times> store" where
  "build_payload_store chat_history s =
     (let (recent_history_payload, s) =
            new_list (filter (\<lambda>msg. role msg \<noteq> ''system'') (cells s chat_history)) s;
          (recent_history_payload, s) =
            new_list (py_last max_history_length (cells s recent_history_payload)) s;
          (system_list, s) = new_list [system_message] s;
          (final_payload_contents, s) =
            new_list (cells s system_list @ cells s recent_history_payload) s
      in (final_payload_contents, s))"

text \<open>
  The whole function on the store. \<open>json.dumps(payload)\<close> reads the list that
  \<open>final_payload_contents\<close> names; the loop writes to no list.
\<close>

definition get_bot_response_store ::
  "transport \<Rightarrow> addr \<Rightarrow> store \<Rightarrow> ((exn + answer \<times> source list) \<times> effects) \<times> store"
where
  "get_bot_response_store post chat_history s =
     (let (final_payload_contents, s) = build_payload_store chat_history s;
          payload = \<lparr>contents = cells s final_payload_contents, tools = [google_search]\<rparr>
      in (retry_loop post payload 0 1 \<lparr>sleeps = [], posts = []\<rparr>, s))"

subsection \<open>Vocabulary for the runs of the loop\<close>

text \<open>
  The outcomes of the \<open>try\<close> block after which the loop goes round again while retries
  remain: a \<open>RequestException\<close>, or the end of the \<open>elif\<close> branch.
\<close>

fun transient :: "exn + attempt \<Rightarrow> bool" where
  "transient (Inl e) = is_request_exception e"
| "transient (Inr Backoff) = True"
| "transient (Inr (Returned r)) = False"

text \<open>
  The outcomes of a call of the transport that the specification names as retried: a
  network-level failure, or a response with status 429 or 5xx.
\<close>

fun retryable :: "exn + response \<Rightarrow> bool" where
  "retryable (Inl e) = is_request_exception e"
| "retryable (Inr r) = (status_code r = 429 \<or> (500 \<le> status_code r \<and> status_code r < 600))"

text \<open>
  The effects of a run that has slept \<open>s\<close> times, for 1, 2, 4, ... seconds, and has sent
  the request \<open>n\<close> times.
\<close>

definition run_effects :: "nat \<Rightarrow> nat \<Rightarrow> payload \<Rightarrow> effects" where
  "run_effects s n p = \<lparr>sleeps = map (\<lambda>i. 2 ^ i) [0..<s], posts = replicate n p\<rparr>"

text \<open>
  The five ways in which a run ends with its call number \<open>n\<close>: the attempt returns; its
  exception is printed and turned into the apology; the print of its exception raises;
  the attempt is the last allowed one and raises a request exception; the attempt is the
  last allowed one and asks for one more retry.
\<close>

abbreviation ends_at :: "transport \<Rightarrow> turn list \<Rightarrow> nat \<Rightarrow> bool" where
  "ends_at post h n \<equiv>
     (\<exists>x. try_block (post n (build_payload h)) = Inr (Returned x) \<and>
          get_bot_response post h = (Inr x, run_effects n (Suc n) (build_payload h))) \<or>
     (\<exists>e. try_block (post n (build_payload h)) = Inl e \<and> \<not> is_request_exception e \<and>
          printable e \<and>
          get_bot_response post h = (Inr (Apology e, []), run_effects n (Suc n) (build_payload h))) \<or>
     (\<exists>e. try_block (post n (build_payload h)) = Inl e \<and> \<not> is_request_exception e \<and>
          \<not> printable e \<and>
          get_bot_response post h = (Inl UnicodeEncodeError, run_effects n (Suc n) (build_payload h))) \<or>
     (\<exists>e. try_block (post n (build_payload h)) = Inl e \<and> is_request_exception e \<and>
          n + 1 = max_retries \<and>
          get_bot_response post h = (Inl e, run_effects n (Suc n) (build_payload h))) \<or>
     (try_block (post n (build_payload h)) = Inr Backoff \<and> n + 1 = max_retries \<and>
          get_bot_response post h =
            (Inl max_retries_reached, run_effects (Suc n) (Suc n) (build_payload h)))"

subsection \<open>The paths the specification names\<close>

text \<open>
  The specification speaks of \<open>candidates[0].content.parts[0].text\<close> and of the message
  of an error body as paths into the body. A path is absent when a step of it is: a key
  that a dictionary lacks, a first element that a list lacks, or a value of another kind.
  These definitions follow the specification's words, with none of the defaults of the code.
\<close>

fun field :: "string \<Rightarrow> json \<Rightarrow> json option" where
  "field k (JObj kvs) = map_of kvs k"
| "field k _ = None"

fun first_item :: "json \<Rightarrow> json option" where
  "first_item (JArr (x # xs)) = Some x"
| "first_item _ = None"

definition first_candidate :: "json \<Rightarrow> json option" where
  "first_candidate body = Option.bind (field ''candidates'' body) first_item"

definition extracted_text :: "json \<Rightarrow> json option" where
  "extracted_text body =
     Option.bind (first_candidate body) (\<lambda>candidate.
     Option.bind (field ''content'' candidate) (\<lambda>content.
     Option.bind (field ''parts'' content) (\<lambda>ps.
     Option.bind (first_item ps) (field ''text''))))"

definition provider_message :: "json \<Rightarrow> json option" where
  "provider_message body = Option.bind (field ''error'' body) (field ''message'')"

text \<open>
  The grounding attributions of a candidate, the fields of the \<open>web\<close> entry of one
  attribution, and the source that an attribution with a non-empty uri and a non-empty
  title stands for; an attribution that lacks either stands for none.
\<close>

definition attributions :: "json \<Rightarrow> json option" where
  "attributions candidate =
     Option.bind (field ''groundingMetadata'' candidate) (field ''groundingAttributions'')"

definition web_field :: "string \<Rightarrow> json \<Rightarrow> json option" where
  "web_field k attr = Option.bind (field ''web'' attr) (field k)"

definition source_of :: "json \<Rightarrow> source option" where
  "source_of attr =
     (case (web_field ''uri'' attr, web_field ''title'' attr) of
        (Some u, Some t) \<Rightarrow> if truthy u \<and> truthy t then Some \<lparr>uri = u, title = t\<rparr> else None
      | _ \<Rightarrow> None)"

text \<open>
  The sources the specification assigns to a candidate: those of its attributions, in
  their order, where the attributions are a list, and none otherwise.
\<close>

definition cited_sources :: "json \<Rightarrow> source list" where
  "cited_sources candidate =
     (case attributions candidate of
        Some (JArr attrs) \<Rightarrow> List.map_filter source_of attrs
      | _ \<Rightarrow> [])"

subsection \<open>Concrete inputs\<close>

text \<open>A history of one system turn and twelve user turns.\<close>

definition history12 :: "turn list" where
  "history12 =
     system_message #
     map (\<lambda>n. \<lparr>role = ''user'', parts = [digits n]\<rparr>) [0, 1, 2, 3, 4, 5, 6, 7, 8, 9, 10, 11]"

text \<open>A transport on which every connection fails.\<close>

definition unreachable :: transport where
  "unreachable n request = Inl (RequestException ''connection refused'')"

text \<open>
  A body of the shape the provider documents, with four grounding attributions of which
  the second lacks a title and the third has an empty uri.
\<close>

definition grounded_body :: json where
  "grounded_body =
     JObj [(''candidates'', JArr [JObj
       [(''content'', JObj [(''parts'', JArr [JObj [(''text'', JStr ''Post at noon.'')]])]),
        (''groundingMetadata'', JObj [(''groundingAttributions'', JArr
           [JObj [(''web'', JObj [(''uri'', JStr ''https://a.example''), (''title'', JStr ''A'')])],
            JObj [(''web'', JObj [(''uri'', JStr ''https://b.example'')])],
            JObj [(''web'', JObj [(''uri'', JStr ''''), (''title'', JStr ''C'')])],
            JObj [(''web'', JObj [(''uri'', JStr ''https://d.example''), (''title'', JStr ''D'')])]])])]])]"

text \<open>A response that has a status code and no JSON body.\<close>

definition status_only :: "int \<Rightarrow> response" where
  "status_only code = \<lparr>status_code = code, json_body = Inl (RequestException ''no JSON body'')\<rparr>"

text \<open>Status 429 twice, then 200 with the body above.\<close>

definition limited_twice :: transport where
  "limited_twice n request =
     (if n < 2 then Inr (status_only 429)
      else Inr \<lparr>status_code = 200, json_body = Inr grounded_body\<rparr>)"

text \<open>Status 500 on every call.\<close>

definition always_500 :: transport where
  "always_500 n request = Inr (status_only 500)"

text \<open>Status 429 four times, then no connection.\<close>

definition limited_then_unreachable :: transport where
  "limited_then_unreachable n request =
     (if n < 4 then Inr (status_only 429) else unreachable n request)"

text \<open>Status 200 with a given body, on every call.\<close>

definition body_200 :: "json \<Rightarrow> transport" where
  "body_200 body n request = Inr \<lparr>status_code = 200, json_body = Inr body\<rparr>"

text \<open>The documented shape with an empty text, and a body whose list of candidates is empty.\<close>

definition empty_text_body :: json where
  "empty_text_body =
     JObj [(''candidates'', JArr [JObj
       [(''content'', JObj [(''parts'', JArr [JObj [(''text'', JStr [])]])])]])]"

definition no_candidates_body :: json where
  "no_candidates_body = JObj [(''candidates'', JArr [])]"

text \<open>Status 400 with the message \<open>bad key\<close>, and status 403 with no message.\<close>

definition bad_key_400 :: transport where
  "bad_key_400 n request =
     Inr \<lparr>status_code = 400,
          json_body = Inr (JObj [(''error'', JObj [(''message'', JStr ''bad key'')])])\<rparr>"

definition forbidden_403 :: transport where
  "forbidden_403 n request = Inr \<lparr>status_code = 403, json_body = Inr (JObj [])\<rparr>"

text \<open>Status 200 with a body that is not JSON, so that \<open>response.json()\<close> raises.\<close>

definition unparsed_200 :: transport where
  "unparsed_200 n request = Inr (status_only 200)"

text \<open>Status 400 whose message is the lone surrogate \<open>"\ud800"\<close>.\<close>

definition surrogate_400 :: transport where
  "surrogate_400 n request =
     Inr \<lparr>status_code = 400,
          json_body = Inr (JObj [(''error'',
            JObj [(''message'', JStr [CHR 0xED, CHR 0xA0, CHR 0x80])])])\<rparr>"


text \<open>A store holding one list, the history of thirteen turns, at address 0.\<close>

definition session_store :: store where
  "session_store = \<lparr>cells = (\<lambda>a. [])(0 := history12), next_addr = 1\<rparr>"

section \<open>Properties\<close>

declare retry_loop.simps [simp del] digits.simps [simp del]

lemma py_last_split:
  "n \<le> length xs \<Longrightarrow> \<exists>older. xs = older @ py_last n xs \<and> length (py_last n xs) = n"
  unfolding py_last_def
  by (rule exI [of _ "take (length xs - n) xs"]) simp

subsection \<open>The shape of a run\<close>

text \<open>A transient attempt that is not the last allowed one sleeps and doubles the delay.\<close>

lemma retry_loop_again:
  assumes "transient (try_block (post (length (posts fx)) p))" and "r + 1 < max_retries"
  shows "retry_loop post p r d fx =
         retry_loop post p (r + 1) (d * 2) (backoff d (fx\<lparr>posts := posts fx @ [p]\<rparr>))"
proof (cases "try_block (post (length (posts fx)) p)")
  case (Inl e)
  from assms(2) have "\<not> max_retries - 1 \<le> r" by simp
  with Inl assms show ?thesis
    by (simp add: retry_loop.simps [of post p r] Let_def)
next
  case (Inr a)
  with assms show ?thesis
    by (cases a) (simp_all add: retry_loop.simps [of post p r] Let_def)
qed

lemma doubling_Suc:
  "map (\<lambda>i. d * 2 ^ i) [0..<Suc k] = d # map (\<lambda>i. (d * 2) * 2 ^ i) [0..<k]" for d :: int
proof -
  have "map (\<lambda>i. d * 2 ^ i) [0..<Suc k] = d # map (\<lambda>i. d * 2 ^ i) (map Suc [0..<k])"
    by (simp add: upt_conv_Cons map_Suc_upt del: upt_Suc)
  then show ?thesis by (simp add: comp_def mult.assoc)
qed

lemma retry_loop_prefix:
  assumes "\<forall>i<k. transient (try_block (post (length (posts fx) + i) p))" and "r + k < max_retries"
  shows "retry_loop post p r d fx =
         retry_loop post p (r + k) (d * 2 ^ k)
           \<lparr>sleeps = sleeps fx @ map (\<lambda>i. d * 2 ^ i) [0..<k], posts = posts fx @ replicate k p\<rparr>"
  using assms
proof (induction k arbitrary: r d fx)
  case 0
  then show ?case by (cases fx) simp
next
  case (Suc k)
  let ?fx = "backoff d (fx\<lparr>posts := posts fx @ [p]\<rparr>)"
  from Suc.prems have first: "transient (try_block (post (length (posts fx)) p))"
    by (metis add.right_neutral zero_less_Suc)
  have rest: "\<forall>i<k. transient (try_block (post (length (posts ?fx) + i) p))"
  proof (intro allI impI)
    fix i assume "i < k"
    then have "Suc i < Suc k" by simp
    with Suc.prems(1) have "transient (try_block (post (length (posts fx) + Suc i) p))" by blast
    then show "transient (try_block (post (length (posts ?fx) + i) p))"
      by (simp add: backoff_def)
  qed
  from Suc.prems(2) have r: "r + 1 < max_retries" "(r + 1) + k < max_retries" by simp_all
  have "retry_loop post p r d fx = retry_loop post p (r + 1) (d * 2) ?fx"
    using first r(1) by (rule retry_loop_again)
  also have "\<dots> = retry_loop post p ((r + 1) + k) ((d * 2) * 2 ^ k)
      \<lparr>sleeps = sleeps ?fx @ map (\<lambda>i. (d * 2) * 2 ^ i) [0..<k], posts = posts ?fx @ replicate k p\<rparr>"
    using rest r(2) by (rule Suc.IH)
  also have "\<dots> = retry_loop post p (r + Suc k) (d * 2 ^ Suc k)
      \<lparr>sleeps = sleeps fx @ map (\<lambda>i. d * 2 ^ i) [0..<Suc k], posts = posts fx @ replicate (Suc k) p\<rparr>"
    by (simp add: backoff_def doubling_Suc replicate_append_same mult.assoc del: upt_Suc)
  finally show ?case .
qed

lemma run_prefix:
  assumes "\<forall>i<k. transient (try_block (post i (build_payload h)))" and "k < max_retries"
  shows "get_bot_response post h =
         retry_loop post (build_payload h) k (2 ^ k)
           \<lparr>sleeps = map (\<lambda>i. 2 ^ i) [0..<k], posts = replicate k (build_payload h)\<rparr>"
  using retry_loop_prefix [of k post "\<lparr>sleeps = [], posts = []\<rparr>" "build_payload h" 0 1] assms
  by (simp add: get_bot_response_def)


lemma retry_loop_returned:
  assumes "r < max_retries" and "try_block (post (length (posts fx)) p) = Inr (Returned x)"
  shows "retry_loop post p r d fx = (Inr x, fx\<lparr>posts := posts fx @ [p]\<rparr>)"
  using assms by (simp add: retry_loop.simps [of post p r] Let_def)

lemma retry_loop_apology:
  assumes "r < max_retries" and "try_block (post (length (posts fx)) p) = Inl e"
    and "\<not> is_request_exception e" and "printable e"
  shows "retry_loop post p r d fx = (Inr (Apology e, []), fx\<lparr>posts := posts fx @ [p]\<rparr>)"
  using assms by (simp add: retry_loop.simps [of post p r] Let_def)

lemma retry_loop_print_raises:
  assumes "r < max_retries" and "try_block (post (length (posts fx)) p) = Inl e"
    and "\<not> is_request_exception e" and "\<not> printable e"
  shows "retry_loop post p r d fx = (Inl UnicodeEncodeError, fx\<lparr>posts := posts fx @ [p]\<rparr>)"
  using assms by (simp add: retry_loop.simps [of post p r] Let_def)

lemma retry_loop_last_raise:
  assumes "r + 1 = max_retries" and "try_block (post (length (posts fx)) p) = Inl e"
    and "is_request_exception e"
  shows "retry_loop post p r d fx = (Inl e, fx\<lparr>posts := posts fx @ [p]\<rparr>)"
proof -
  from assms(1) have "r < max_retries" "max_retries - 1 \<le> r" by simp_all
  with assms(2,3) show ?thesis by (simp add: retry_loop.simps [of post p r] Let_def)
qed

lemma retry_loop_exhausted:
  assumes "r + 1 = max_retries" and "try_block (post (length (posts fx)) p) = Inr Backoff"
  shows "retry_loop post p r d fx =
         (Inl max_retries_reached, backoff d (fx\<lparr>posts := posts fx @ [p]\<rparr>))"
proof -
  from assms(1) have "r < max_retries" "\<not> r + 1 < max_retries" by simp_all
  with assms(2) show ?thesis
    by (simp add: retry_loop.simps [of post p r] retry_loop.simps [of post p "Suc r"] Let_def)
qed

lemma run_returned:
  assumes "\<forall>i<k. transient (try_block (post i (build_payload h)))" and "k < max_retries"
    and "try_block (post k (build_payload h)) = Inr (Returned x)"
  shows "get_bot_response post h = (Inr x, run_effects k (Suc k) (build_payload h))"
  using assms
  by (simp add: run_prefix retry_loop_returned run_effects_def replicate_append_same)

lemma run_apology:
  assumes "\<forall>i<k. transient (try_block (post i (build_payload h)))" and "k < max_retries"
    and "try_block (post k (build_payload h)) = Inl e" and "\<not> is_request_exception e"
    and "printable e"
  shows "get_bot_response post h = (Inr (Apology e, []), run_effects k (Suc k) (build_payload h))"
  using assms
  by (simp add: run_prefix retry_loop_apology run_effects_def replicate_append_same)

lemma run_print_raises:
  assumes "\<forall>i<k. transient (try_block (post i (build_payload h)))" and "k < max_retries"
    and "try_block (post k (build_payload h)) = Inl e" and "\<not> is_request_exception e"
    and "\<not> printable e"
  shows "get_bot_response post h =
         (Inl UnicodeEncodeError, run_effects k (Suc k) (build_payload h))"
  using assms
  by (simp add: run_prefix retry_loop_print_raises run_effects_def replicate_append_same)

lemma run_last_raise:
  assumes "\<forall>i<k. transient (try_block (post i (build_payload h)))" and "k + 1 = max_retries"
    and "try_block (post k (build_payload h)) = Inl e" and "is_request_exception e"
  shows "get_bot_response post h = (Inl e, run_effects k (Suc k) (build_payload h))"
proof -
  let ?p = "build_payload h"
  let ?fx = "\<lparr>sleeps = map (\<lambda>i. 2 ^ i) [0..<k], posts = replicate k ?p\<rparr>"
  from assms(2) have lt: "k < max_retries" by simp
  from assms(3) have at: "try_block (post (length (posts ?fx)) ?p) = Inl e" by simp
  have "get_bot_response post h = retry_loop post ?p k (2 ^ k) ?fx"
    using assms(1) lt by (rule run_prefix)
  also have "\<dots> = (Inl e, ?fx\<lparr>posts := posts ?fx @ [?p]\<rparr>)"
    using assms(2) at assms(4) by (rule retry_loop_last_raise)
  also have "\<dots> = (Inl e, run_effects k (Suc k) ?p)"
    by (simp add: run_effects_def replicate_append_same)
  finally show ?thesis .
qed

lemma run_exhausted:
  assumes "\<forall>i<k. transient (try_block (post i (build_payload h)))" and "k + 1 = max_retries"
    and "try_block (post k (build_payload h)) = Inr Backoff"
  shows "get_bot_response post h =
         (Inl max_retries_reached, run_effects (Suc k) (Suc k) (build_payload h))"
proof -
  let ?p = "build_payload h"
  let ?fx = "\<lparr>sleeps = map (\<lambda>i. 2 ^ i) [0..<k], posts = replicate k ?p\<rparr>"
  from assms(2) have lt: "k < max_retries" by simp
  from assms(3) have at: "try_block (post (length (posts ?fx)) ?p) = Inr Backoff" by simp
  have "get_bot_response post h = retry_loop post ?p k (2 ^ k) ?fx"
    using assms(1) lt by (rule run_prefix)
  also have "\<dots> = (Inl max_retries_reached, backoff (2 ^ k) (?fx\<lparr>posts := posts ?fx @ [?p]\<rparr>))"
    using assms(2) at by (rule retry_loop_exhausted)
  also have "\<dots> = (Inl max_retries_reached, run_effects (Suc k) (Suc k) ?p)"
    by (simp add: run_effects_def replicate_append_same backoff_def)
  finally show ?thesis .
qed

text \<open>
  Every run ends in one of the five ways, after a number of transient attempts that is
  smaller than \<open>max_retries\<close>.
\<close>

lemma run_shape:
  "\<exists>k<max_retries. (\<forall>i<k. transient (try_block (post i (build_payload h)))) \<and> ends_at post h k"
proof -
  let ?p = "build_payload h"
  let ?stop = "\<lambda>i. \<not> transient (try_block (post i ?p)) \<or> i + 1 = max_retries"
  define k where "k = (LEAST i. ?stop i)"
  have ex: "?stop (max_retries - 1)" by (simp add: max_retries_def)
  have stop: "?stop k" unfolding k_def using ex by (rule LeastI)
  have "k \<le> max_retries - 1" unfolding k_def using ex by (rule Least_le)
  then have lt: "k < max_retries" by (simp add: max_retries_def)
  have before: "\<forall>i<k. transient (try_block (post i ?p))"
  proof (intro allI impI)
    fix i assume "i < k"
    then have "\<not> ?stop i" unfolding k_def by (rule not_less_Least)
    then show "transient (try_block (post i ?p))" by simp
  qed
  have "ends_at post h k"
  proof (cases "try_block (post k ?p)")
    case (Inl e)
    show ?thesis
    proof (cases "is_request_exception e")
      case True
      with Inl stop have "k + 1 = max_retries" by simp
      with run_last_raise [of k post h e] before Inl True show ?thesis by blast
    next
      case False
      show ?thesis
      proof (cases "printable e")
        case True
        with run_apology [of k post h e] before Inl lt False show ?thesis by blast
      next
        case unprintable: False
        with run_print_raises [of k post h e] before Inl lt False show ?thesis by blast
      qed
    qed
  next
    case (Inr a)
    show ?thesis
    proof (cases a)
      case (Returned x)
      with run_returned [of k post h x] before Inr lt show ?thesis by blast
    next
      case Backoff
      with Inr stop have "k + 1 = max_retries" by simp
      with run_exhausted [of k post h] before Inr Backoff show ?thesis by blast
    qed
  qed
  with lt before show ?thesis by blast
qed

lemma run_posts:
  "\<exists>k s. k < max_retries \<and>
         snd (get_bot_response post h) = run_effects s (Suc k) (build_payload h)"
proof -
  from run_shape [of post h] obtain k where
    k: "k < max_retries" and
    shape: "ends_at post h k"
    by blast
  from shape have "\<exists>s. snd (get_bot_response post h) = run_effects s (Suc k) (build_payload h)"
    by (elim disjE exE conjE) (metis snd_conv)+
  with k show ?thesis by blast
qed

lemma get_bot_response_posts:
  "\<exists>k. posts (snd (get_bot_response post chat_history)) = replicate k (build_payload chat_history) \<and>
       1 \<le> k \<and> k \<le> max_retries"
proof -
  from run_posts [of post chat_history] obtain k s where
    "k < max_retries"
    "snd (get_bot_response post chat_history) = run_effects s (Suc k) (build_payload chat_history)"
    by blast
  then show ?thesis
    by (intro exI [of _ "Suc k"]) (simp add: run_effects_def)
qed

text \<open>The loop asks the transport only for calls that have not been made yet.\<close>

lemma retry_loop_cong:
  "\<forall>i. length (posts fx) \<le> i \<longrightarrow> post' i p = post i p \<Longrightarrow>
   retry_loop post' p r d fx = retry_loop post p r d fx"
proof (induction post p r d fx rule: retry_loop.induct)
  case (1 post payload retries delay fx)
  let ?fx = "fx\<lparr>posts := posts fx @ [payload]\<rparr>"
  from "1.prems" have here: "post' (length (posts fx)) payload = post (length (posts fx)) payload"
    by simp
  from "1.prems" have later: "\<forall>i. length (posts (backoff delay ?fx)) \<le> i \<longrightarrow> post' i payload = post i payload"
    by (simp add: backoff_def)
  show ?case
  proof (cases "retries < max_retries")
    case False
    then show ?thesis
      by (simp add: retry_loop.simps [of post payload retries] retry_loop.simps [of post' payload retries])
  next
    case lt: True
    show ?thesis
    proof (cases "try_block (post (length (posts fx)) payload)")
      case (Inl e)
      show ?thesis
      proof (cases "is_request_exception e \<and> \<not> retries \<ge> max_retries - 1")
        case True
        then have c: "is_request_exception e" "\<not> retries \<ge> max_retries - 1" by simp_all
        from "1.IH"(1) [OF lt refl refl Inl c later] lt Inl c here show ?thesis
          by (simp add: retry_loop.simps [of post payload retries]
              retry_loop.simps [of post' payload retries] Let_def)
      next
        case False
        with lt Inl here show ?thesis
          by (auto simp add: retry_loop.simps [of post payload retries]
              retry_loop.simps [of post' payload retries] Let_def)
      qed
    next
      case (Inr a)
      show ?thesis
      proof (cases a)
        case (Returned x)
        with lt Inr here show ?thesis
          by (simp add: retry_loop.simps [of post payload retries]
              retry_loop.simps [of post' payload retries] Let_def)
      next
        case Backoff
        from "1.IH"(2) [OF lt refl refl Inr Backoff later] lt Inr Backoff here show ?thesis
          by (simp add: retry_loop.simps [of post payload retries]
              retry_loop.simps [of post' payload retries] Let_def)
      qed
    qed
  qed
qed

text \<open>A run that starts with \<open>k\<close> transient attempts starts with the sleeps 1, 2, 4, ...\<close>

lemma run_sleeps_prefix:
  assumes "\<forall>i<k. transient (try_block (post i (build_payload h)))" and "k < max_retries"
  shows "take k (sleeps (snd (get_bot_response post h))) = map (\<lambda>i. 2 ^ i) [0..<k]"
proof -
  let ?p = "build_payload h"
  let ?fx = "\<lparr>sleeps = map (\<lambda>i. 2 ^ i) [0..<k], posts = replicate k ?p\<rparr>"
  from run_shape [of post h] obtain n where
    n: "n < max_retries" and
    shape: "ends_at post h n"
    by blast
  have "k \<le> n"
  proof (rule ccontr)
    assume "\<not> k \<le> n"
    then have "n < k" by simp
    with assms(1) have t: "transient (try_block (post n ?p))" by blast
    from \<open>n < k\<close> assms(2) have "n + 1 \<noteq> max_retries" by simp
    with shape t show False by auto
  qed
  from shape obtain s where s: "snd (get_bot_response post h) = run_effects s (Suc n) ?p" "n \<le> s"
    by (elim disjE exE conjE) force+
  from s(2) \<open>k \<le> n\<close> have "k \<le> s" by simp
  then show ?thesis
    by (simp add: s(1) run_effects_def take_map)
qed


subsection \<open>What one attempt does\<close>

lemma try_block_raise: "try_block (Inl e) = Inl e"
  by (simp add: try_block_def bind_exn_def)

lemma try_block_backoff:
  "status_code r = 429 \<or> (500 \<le> status_code r \<and> status_code r < 600) \<Longrightarrow>
   try_block (Inr r) = Inr Backoff"
  by (auto simp: try_block_def bind_exn_def ok_def)

lemma try_block_ok:
  "ok r \<Longrightarrow> json_body r = Inr result \<Longrightarrow>
   try_block (Inr r) =
     (case read_result result of Inl e \<Rightarrow> Inl e | Inr (t, s) \<Rightarrow> Inr (Returned (Answer t, s)))"
  by (simp add: try_block_def bind_exn_def split: sum.splits)

lemma retryable_transient: "retryable x \<Longrightarrow> transient (try_block x)"
  by (cases x) (auto simp: try_block_raise try_block_backoff)

subsection \<open>Reading a body\<close>

text \<open>The exceptions of the reading functions are built-in errors, never request exceptions.\<close>

lemma bind_exn_Inl:
  "bind_exn m f = Inl e \<Longrightarrow> m = Inl e \<or> (\<exists>v. m = Inr v \<and> f v = Inl e)"
  by (cases m) (simp_all add: bind_exn_def)

lemma bind_exn_Inr:
  "bind_exn m f = Inr y \<Longrightarrow> \<exists>v. m = Inr v \<and> f v = Inr y"
  by (cases m) (simp_all add: bind_exn_def)

lemma py_get_raises: "py_get x k d = Inl e \<Longrightarrow> e = AttributeError"
  by (cases x) simp_all

lemma py_index0_raises: "py_index0 x = Inl e \<Longrightarrow> \<not> is_request_exception e"
  by (cases x rule: py_index0.cases) auto

lemma py_contains_raises: "py_contains k x = Inl e \<Longrightarrow> e = TypeError"
  by (cases x) simp_all

lemma py_getitem_raises: "py_getitem x k = Inl e \<Longrightarrow> \<not> is_request_exception e"
  by (cases x) (auto split: option.splits)

lemma py_iter_raises: "py_iter x = Inl e \<Longrightarrow> e = TypeError"
  by (cases x) simp_all

lemma attribution_source_raises: "attribution_source a = Inl e \<Longrightarrow> e = AttributeError"
  unfolding attribution_source_def
  by (auto dest!: bind_exn_Inl py_get_raises split: if_splits)

lemma collect_sources_raises: "collect_sources as = Inl e \<Longrightarrow> e = AttributeError"
proof (induction as)
  case Nil
  then show ?case by simp
next
  case (Cons a as)
  then show ?case
    by (auto dest!: bind_exn_Inl attribution_source_raises)
qed

lemma extract_sources_raises: "extract_sources c = Inl e \<Longrightarrow> \<not> is_request_exception e"
  unfolding extract_sources_def
  by (auto dest!: bind_exn_Inl py_get_raises py_contains_raises py_getitem_raises
      py_iter_raises collect_sources_raises split: if_splits)

lemma read_result_raises: "read_result body = Inl e \<Longrightarrow> \<not> is_request_exception e"
  unfolding read_result_def
  by (auto dest!: bind_exn_Inl py_get_raises py_index0_raises extract_sources_raises
      split: if_splits)

text \<open>Their texts are ASCII, so the print of line 106 returns on each of them.\<close>

lemma py_index0_printable: "py_index0 x = Inl e \<Longrightarrow> printable e"
  by (cases x rule: py_index0.cases) auto

lemma py_getitem_printable: "py_getitem x k = Inl e \<Longrightarrow> printable e"
  by (cases x) (auto split: option.splits)

lemma extract_sources_printable: "extract_sources c = Inl e \<Longrightarrow> printable e"
  unfolding extract_sources_def
  by (auto dest!: bind_exn_Inl py_get_raises py_contains_raises py_getitem_printable
      py_iter_raises collect_sources_raises split: if_splits)

lemma read_result_printable: "read_result body = Inl e \<Longrightarrow> printable e"
  unfolding read_result_def
  by (auto dest!: bind_exn_Inl py_get_raises py_index0_printable extract_sources_printable
      split: if_splits)


text \<open>The code's reads against the paths of the specification.\<close>

lemma py_get_field: "field k x = Some v \<Longrightarrow> py_get x k d = Inr v"
  by (cases x) simp_all

lemma py_index0_first: "first_item x = Some v \<Longrightarrow> py_index0 x = Inr v"
  by (cases x rule: first_item.cases) simp_all

lemma py_get_Inr:
  "py_get x k d = Inr v \<Longrightarrow> field k x = Some v \<or> (field k x = None \<and> v = d)"
  by (cases x) (auto split: option.splits)

lemma py_index0_Inr:
  "py_index0 x = Inr v \<Longrightarrow> first_item x = Some v \<or> (\<exists>s. v = JStr s)"
  by (cases x rule: py_index0.cases) auto

text \<open>What line 65 reads from a dictionary \<open>content\<close> is truthy only if it is its text.\<close>

lemma text_of_content:
  assumes "py_get content ''text'' (JStr []) = Inr t" and "truthy t"
  shows "field ''text'' content = Some t"
  using py_get_Inr [OF assms(1)] assms(2) by auto

lemma content_of_parts:
  assumes "py_index0 ps = Inr content" and "py_get content ''text'' (JStr []) = Inr t" and "truthy t"
  shows "first_item ps = Some content \<and> ps \<noteq> JArr [JObj []]"
proof -
  from py_index0_Inr [OF assms(1)] assms(2) have "first_item ps = Some content" by auto
  moreover have "ps \<noteq> JArr [JObj []]"
  proof
    assume "ps = JArr [JObj []]"
    with assms(1) have "content = JObj []" by simp
    with assms(2,3) show False by auto
  qed
  ultimately show ?thesis by simp
qed

text \<open>
  A body is accepted only if its text path is present and truthy; the defaults of lines
  63-65 never lead to an accepted body.
\<close>

lemma read_result_Inr:
  assumes "read_result body = Inr (t, srcs)"
  shows "\<exists>candidate. first_candidate body = Some candidate \<and> extracted_text body = Some t \<and>
           truthy t \<and> extract_sources candidate = Inr srcs"
proof -
  from assms obtain cs candidate c0 ps content t0 where
    cs: "py_get body ''candidates'' (JArr [JObj []]) = Inr cs" and
    candidate: "py_index0 cs = Inr candidate" and
    c0: "py_get candidate ''content'' (JObj []) = Inr c0" and
    ps: "py_get c0 ''parts'' (JArr [JObj []]) = Inr ps" and
    content: "py_index0 ps = Inr content" and
    t0: "py_get content ''text'' (JStr []) = Inr t0" and
    rest: "(if \<not> truthy t0 then Inl (PyException (JStr ''Invalid response structure from API.''))
            else bind_exn (extract_sources candidate) (\<lambda>sources. Inr (t0, sources))) = Inr (t, srcs)"
    unfolding read_result_def by (auto dest!: bind_exn_Inr)
  from rest have truthy: "truthy t0" and src: "extract_sources candidate = Inr srcs" and eq: "t0 = t"
    by (auto split: if_splits dest!: bind_exn_Inr)
  from text_of_content [OF t0 truthy] have f_text: "field ''text'' content = Some t0" .
  from content_of_parts [OF content t0 truthy]
  have f_first: "first_item ps = Some content" and nd: "ps \<noteq> JArr [JObj []]" by simp_all
  from py_get_Inr [OF ps] nd have f_parts: "field ''parts'' c0 = Some ps" by auto
  then have "c0 \<noteq> JObj []" by auto
  with py_get_Inr [OF c0] have f_content: "field ''content'' candidate = Some c0" by auto
  have cand_dict: "\<forall>s. candidate \<noteq> JStr s" using f_content by auto
  with py_index0_Inr [OF candidate] have f_cand: "first_item cs = Some candidate" by auto
  have "cs \<noteq> JArr [JObj []]"
  proof
    assume "cs = JArr [JObj []]"
    with candidate have "candidate = JObj []" by simp
    with f_content show False by simp
  qed
  with py_get_Inr [OF cs] have f_cs: "field ''candidates'' body = Some cs" by auto
  from f_cs f_cand have fc: "first_candidate body = Some candidate"
    by (simp add: first_candidate_def)
  with f_content f_parts f_first f_text have "extracted_text body = Some t0"
    by (simp add: extracted_text_def)
  with fc truthy src eq show ?thesis by simp
qed

lemma read_result_text:
  assumes "first_candidate body = Some candidate" and "extracted_text body = Some t"
  shows "read_result body =
         (if \<not> truthy t then Inl (PyException (JStr ''Invalid response structure from API.''))
          else bind_exn (extract_sources candidate) (\<lambda>sources. Inr (t, sources)))"
proof -
  from assms(1) obtain cs where cs: "field ''candidates'' body = Some cs" "first_item cs = Some candidate"
    by (auto simp: first_candidate_def bind_eq_Some_conv)
  from assms obtain c0 ps content where
    c0: "field ''content'' candidate = Some c0" and ps: "field ''parts'' c0 = Some ps" and
    content: "first_item ps = Some content" and t: "field ''text'' content = Some t"
    by (auto simp: extracted_text_def bind_eq_Some_conv)
  show ?thesis
    unfolding read_result_def
    by (simp add: py_get_field [OF cs(1)] py_index0_first [OF cs(2)] py_get_field [OF c0]
        py_get_field [OF ps] py_index0_first [OF content] py_get_field [OF t] bind_exn_def)
qed

text \<open>A body whose text is absent or empty is never accepted.\<close>

lemma read_result_unusable:
  assumes "extracted_text body = None \<or> extracted_text body = Some (JStr [])"
  shows "\<exists>e. read_result body = Inl e \<and> \<not> is_request_exception e \<and> printable e"
proof (cases "read_result body")
  case (Inl e)
  with read_result_raises [OF Inl] read_result_printable [OF Inl] show ?thesis by simp
next
  case (Inr p)
  obtain t srcs where "p = (t, srcs)" by (cases p)
  with Inr read_result_Inr [of body t srcs] assms show ?thesis by auto
qed

subsection \<open>Client errors and the exceptions of an attempt\<close>

text \<open>The default message of line 96 is ASCII.\<close>

lemma no_lead_no_surrogate: "CHR 0xED \<notin> set s \<Longrightarrow> \<not> has_surrogate s"
  by (induction s rule: has_surrogate.induct) auto

lemma digits_ascii: "set (digits n) \<subseteq> set ''0123456789''"
proof (induction n rule: digits.induct)
  case (1 n)
  have d: "''0123456789'' ! k \<in> set ''0123456789''" if "k < 10" for k
    using that by (intro nth_mem) simp
  show ?case
  proof (cases "n < 10")
    case True
    with d [of n] show ?thesis by (subst digits.simps) simp
  next
    case False
    have "n mod 10 < 10" by simp
    with "1.IH" False d [of "n mod 10"] show ?thesis by (subst digits.simps) simp
  qed
qed

lemma default_message_encodable:
  "\<not> has_surrogate (''HTTP error! status: '' @ py_str_int i)"
proof -
  have "CHR 0xED \<notin> set (digits n)" for n
    using digits_ascii [of n] by auto
  then have "CHR 0xED \<notin> set (py_str_int i)" by (simp add: py_str_int_def)
  then have "CHR 0xED \<notin> set (''HTTP error! status: '' @ py_str_int i)" by simp
  then show ?thesis by (rule no_lead_no_surrogate)
qed

text \<open>
  A client error with a JSON body: the exception that leaves the \<open>try\<close> block is never a
  request exception, it carries the provider's message when the body has one, and its
  text can be printed unless that message is a string with a lone surrogate.
\<close>

lemma try_block_client_error:
  assumes "400 \<le> status_code r" and "status_code r < 500" and "status_code r \<noteq> 429"
    and "json_body r = Inr body"
  shows "\<exists>e. try_block (Inr r) = Inl e \<and> \<not> is_request_exception e \<and>
             (\<forall>m. provider_message body = Some m \<longrightarrow> e = PyException m) \<and>
             (printable e \<longleftrightarrow>
                (\<forall>s. provider_message body = Some (JStr s) \<longrightarrow> \<not> has_surrogate s))"
proof (cases "str_encodable body")
  case False
  then obtain s where "body = JStr s" by (cases body) simp_all
  then have "provider_message body = None" by (simp add: provider_message_def)
  moreover from assms False have "try_block (Inr r) = Inl UnicodeEncodeError"
    by (simp add: try_block_def ok_def bind_exn_def)
  ultimately show ?thesis by simp
next
  case True
  let ?d = "JStr (''HTTP error! status: '' @ py_str_int (status_code r))"
  from assms True have tb: "try_block (Inr r) =
      bind_exn (py_get body ''error'' (JObj [])) (\<lambda>err.
        bind_exn (py_get err ''message'' ?d) (\<lambda>message. Inl (PyException message)))"
    by (simp add: try_block_def ok_def bind_exn_def)
  show ?thesis
  proof (cases "py_get body ''error'' (JObj [])")
    case (Inl e)
    then have "e = AttributeError" by (rule py_get_raises)
    moreover from Inl have "field ''error'' body = None" by (cases body) simp_all
    ultimately show ?thesis using Inl tb by (simp add: bind_exn_def provider_message_def)
  next
    case err: (Inr err)
    from py_get_Inr [OF err]
    have f_err: "field ''error'' body = Some err \<or> (field ''error'' body = None \<and> err = JObj [])" .
    show ?thesis
    proof (cases "py_get err ''message'' ?d")
      case (Inl e)
      then have "e = AttributeError" by (rule py_get_raises)
      moreover from Inl have "field ''message'' err = None" by (cases err) simp_all
      ultimately show ?thesis using Inl err tb f_err
        by (auto simp: bind_exn_def provider_message_def)
    next
      case (Inr m')
      from py_get_Inr [OF Inr]
      have f_msg: "field ''message'' err = Some m' \<or> (field ''message'' err = None \<and> m' = ?d)" .
      have e: "try_block (Inr r) = Inl (PyException m')"
        using Inr err tb by (simp add: bind_exn_def)
      show ?thesis
      proof (cases "provider_message body")
        case None
        with f_err f_msg have "m' = ?d" by (auto simp: provider_message_def)
        with e None default_message_encodable [of "status_code r"] show ?thesis by simp
      next
        case (Some m)
        then obtain err' where e': "field ''error'' body = Some err'" "field ''message'' err' = Some m"
          by (auto simp: provider_message_def bind_eq_Some_conv)
        from py_get_field [OF e'(1), of "JObj []"] err have "err' = err" by simp
        with py_get_field [OF e'(2), of ?d] Inr have "m' = m" by simp
        with e Some show ?thesis by (cases m) auto
      qed
    qed
  qed
qed

lemma try_block_request_exception:
  assumes "try_block x = Inl e" and "is_request_exception e"
  shows "x = Inl e \<or> (\<exists>r. x = Inr r \<and> json_body r = Inl e)"
proof (cases x)
  case (Inl e')
  with assms show ?thesis by (simp add: try_block_raise)
next
  case (Inr r)
  show ?thesis
  proof (cases "json_body r")
    case (Inl e')
    with assms Inr show ?thesis
      by (auto simp: try_block_def bind_exn_def split: if_splits)
  next
    case body: (Inr body)
    show ?thesis
    proof (cases "ok r")
      case True
      with assms Inr body read_result_raises [of body e] show ?thesis
        by (auto simp: try_block_ok split: sum.splits)
    next
      case False
      then have st: "400 \<le> status_code r" "status_code r < 600" by (simp_all add: ok_def)
      show ?thesis
      proof (cases "status_code r = 429 \<or> 500 \<le> status_code r")
        case True
        with st assms Inr show ?thesis by (simp add: try_block_backoff)
      next
        case False
        with st try_block_client_error [of r body] body assms Inr show ?thesis by auto
      qed
    qed
  qed
qed

lemma try_block_Backoff:
  assumes "try_block x = Inr Backoff"
  shows "\<exists>r. x = Inr r \<and> (status_code r = 429 \<or> (500 \<le> status_code r \<and> status_code r < 600))"
proof (cases x)
  case (Inl e)
  with assms show ?thesis by (simp add: try_block_raise)
next
  case (Inr r)
  with assms show ?thesis
    by (auto simp: try_block_def ok_def dest!: bind_exn_Inr split: if_splits prod.splits)
qed

subsection \<open>Where a run ends\<close>

text \<open>An attempt that was made and is not transient is the last attempt of its run.\<close>

lemma run_ends_at:
  assumes "k < length (posts (snd (get_bot_response post h)))"
    and "\<not> transient (try_block (post k (build_payload h)))"
  shows "(\<forall>i<k. transient (try_block (post i (build_payload h)))) \<and> k < max_retries"
proof -
  let ?p = "build_payload h"
  from run_shape [of post h] obtain n where
    n: "n < max_retries" and before: "\<forall>i<n. transient (try_block (post i ?p))" and
    shape: "ends_at post h n"
    by blast
  from shape have "length (posts (snd (get_bot_response post h))) = Suc n"
    by (elim disjE exE conjE) (simp_all only: snd_conv run_effects_def effects.simps length_replicate)
  with assms(1) have "k \<le> n" by simp
  moreover have "\<not> k < n" using before assms(2) by blast
  ultimately have "k = n" by simp
  with n before show ?thesis by simp
qed

lemma run_ends_returned:
  assumes "k < length (posts (snd (get_bot_response post h)))"
    and "try_block (post k (build_payload h)) = Inr (Returned x)"
  shows "get_bot_response post h = (Inr x, run_effects k (Suc k) (build_payload h))"
proof -
  from assms have "(\<forall>i<k. transient (try_block (post i (build_payload h)))) \<and> k < max_retries"
    by (intro run_ends_at) simp_all
  with assms(2) show ?thesis by (simp add: run_returned)
qed

lemma run_ends_apology:
  assumes "k < length (posts (snd (get_bot_response post h)))"
    and "try_block (post k (build_payload h)) = Inl e" and "\<not> is_request_exception e"
    and "printable e"
  shows "get_bot_response post h = (Inr (Apology e, []), run_effects k (Suc k) (build_payload h))"
proof -
  from assms have "(\<forall>i<k. transient (try_block (post i (build_payload h)))) \<and> k < max_retries"
    by (intro run_ends_at) simp_all
  with assms(2,3,4) show ?thesis by (simp add: run_apology)
qed

lemma run_ends_print_raises:
  assumes "k < length (posts (snd (get_bot_response post h)))"
    and "try_block (post k (build_payload h)) = Inl e" and "\<not> is_request_exception e"
    and "\<not> printable e"
  shows "get_bot_response post h =
         (Inl UnicodeEncodeError, run_effects k (Suc k) (build_payload h))"
proof -
  from assms have "(\<forall>i<k. transient (try_block (post i (build_payload h)))) \<and> k < max_retries"
    by (intro run_ends_at) simp_all
  with assms(2,3,4) show ?thesis by (simp add: run_print_raises)
qed

lemma first_attempt_made: "0 < length (posts (snd (get_bot_response post h)))"
  using get_bot_response_posts [of post h] by auto

lemma no_effects: "run_effects 0 (Suc 0) p = \<lparr>sleeps = [], posts = [p]\<rparr>"
  by (simp add: run_effects_def)

subsection \<open>The sources of a candidate\<close>










subsection \<open>Returned pairs\<close>





subsection \<open>The conversation window\<close>

text \<open>
  Claim C1. When the history holds more than 10 turns whose role is not \<open>system\<close>, the
  contents of the request are the synthetic system turn followed by exactly the last 10 of
  those turns, in the order of the history; the system turn does not count toward the 10.
  Each request the run sends is this payload, and the run sends at least one.
\<close>

theorem request_window:
  assumes "10 < length (filter (\<lambda>msg. role msg \<noteq> ''system'') chat_history)"
  shows "\<exists>older window k.
           filter (\<lambda>msg. role msg \<noteq> ''system'') chat_history = older @ window \<and>
           length window = 10 \<and>
           contents (build_payload chat_history) = system_message # window \<and>
           posts (snd (get_bot_response post chat_history)) = replicate k (build_payload chat_history) \<and>
           1 \<le> k"
proof -
  let ?kept = "filter (\<lambda>msg. role msg \<noteq> ''system'') chat_history"
  from assms have "10 \<le> length ?kept" by simp
  from py_last_split [OF this] obtain older where
    older: "?kept = older @ py_last 10 ?kept" "length (py_last 10 ?kept) = 10"
    by blast
  have c: "contents (build_payload chat_history) = system_message # py_last 10 ?kept"
    by (simp add: build_payload_def max_history_length_def)
  from get_bot_response_posts [of post chat_history] obtain k where
    "posts (snd (get_bot_response post chat_history)) = replicate k (build_payload chat_history)"
    "1 \<le> k"
    by blast
  with older c show ?thesis by blast
qed

theorem request_window_witness:
  "10 < length (filter (\<lambda>msg. role msg \<noteq> ''system'') history12) \<and>
   (\<exists>older window k.
      filter (\<lambda>msg. role msg \<noteq> ''system'') history12 = older @ window \<and>
      length window = 10 \<and>
      contents (build_payload history12) = system_message # window \<and>
      posts (snd (get_bot_response unreachable history12)) = replicate k (build_payload history12) \<and>
      1 \<le> k)"
proof -
  have h: "10 < length (filter (\<lambda>msg. role msg \<noteq> ''system'') history12)"
    by (simp add: history12_def system_message_def)
  from request_window [OF h, of unreachable] h show ?thesis by blast
qed

subsection \<open>Rate limiting and server errors\<close>

text \<open>
  Claim C6. When the transport answers 429 to the first two calls and 200 with a body that
  line 84 accepts to the third, the function returns the text and sources of that body; it
  has made exactly three calls and has slept exactly twice, for 1 second and then for 2.
\<close>

theorem rate_limited_twice:
  assumes "post 0 (build_payload h) = Inr r0" and "status_code r0 = 429"
    and "post 1 (build_payload h) = Inr r1" and "status_code r1 = 429"
    and "post 2 (build_payload h) = Inr r2" and "status_code r2 = 200"
    and "json_body r2 = Inr result" and "read_result result = Inr (t, srcs)"
  shows "get_bot_response post h =
         (Inr (Answer t, srcs),
          \<lparr>sleeps = [1, 2], posts = [build_payload h, build_payload h, build_payload h]\<rparr>)"
proof -
  let ?p = "build_payload h"
  have "\<forall>i<2. transient (try_block (post i ?p))"
  proof (intro allI impI)
    fix i :: nat assume "i < 2"
    then have "i = 0 \<or> i = 1" by auto
    with assms(1-4) show "transient (try_block (post i ?p))"
      by (auto simp: try_block_backoff)
  qed
  moreover have "(2::nat) < max_retries" by (simp add: max_retries_def)
  moreover have "try_block (post 2 ?p) = Inr (Returned (Answer t, srcs))"
    using assms(5-8) by (simp add: try_block_ok ok_def)
  ultimately have "get_bot_response post h = (Inr (Answer t, srcs), run_effects 2 (Suc 2) ?p)"
    by (rule run_returned)
  also have "run_effects 2 (Suc 2) ?p = \<lparr>sleeps = [1, 2], posts = [?p, ?p, ?p]\<rparr>"
    by (simp add: run_effects_def upt_rec numeral_3_eq_3)
  finally show ?thesis .
qed

text \<open>The body above is read as its text and the two complete sources, in order.\<close>

lemma read_grounded_body:
  "read_result grounded_body =
     Inr (JStr ''Post at noon.'',
          [\<lparr>uri = JStr ''https://a.example'', title = JStr ''A''\<rparr>,
           \<lparr>uri = JStr ''https://d.example'', title = JStr ''D''\<rparr>])"
  by (simp add: grounded_body_def read_result_def extract_sources_def attribution_source_def
      bind_exn_def)

theorem rate_limited_twice_witness:
  "limited_twice 0 (build_payload []) = Inr (status_only 429) \<and>
   limited_twice 1 (build_payload []) = Inr (status_only 429) \<and>
   limited_twice 2 (build_payload []) = Inr \<lparr>status_code = 200, json_body = Inr grounded_body\<rparr> \<and>
   get_bot_response limited_twice [] =
     (Inr (Answer (JStr ''Post at noon.''),
           [\<lparr>uri = JStr ''https://a.example'', title = JStr ''A''\<rparr>,
            \<lparr>uri = JStr ''https://d.example'', title = JStr ''D''\<rparr>]),
      \<lparr>sleeps = [1, 2], posts = [build_payload [], build_payload [], build_payload []]\<rparr>)"
  using rate_limited_twice [of limited_twice "[]" "status_only 429" "status_only 429"
      "\<lparr>status_code = 200, json_body = Inr grounded_body\<rparr>" grounded_body, OF _ _ _ _ _ _ _ read_grounded_body]
  by (simp add: limited_twice_def status_only_def)

text \<open>
  Claim C7. No run makes more than 5 calls of the transport, whatever the transport does.
  When the transport answers 500 to every call, the run makes exactly 5 calls, sleeping
  1, 2, 4, 8 and 16 seconds after them, and then raises the exception of line 109
  (the one the specification calls RetriesExhausted).
\<close>

theorem server_error_every_time:
  "length (posts (snd (get_bot_response post h))) \<le> 5 \<and>
   ((\<forall>n. \<exists>r. post n (build_payload h) = Inr r \<and> status_code r = 500) \<longrightarrow>
    get_bot_response post h =
      (Inl max_retries_reached,
       \<lparr>sleeps = [1, 2, 4, 8, 16], posts = replicate 5 (build_payload h)\<rparr>))"
proof
  from get_bot_response_posts [of post h] show "length (posts (snd (get_bot_response post h))) \<le> 5"
    by (auto simp: max_retries_def)
next
  let ?p = "build_payload h"
  show "(\<forall>n. \<exists>r. post n ?p = Inr r \<and> status_code r = 500) \<longrightarrow>
    get_bot_response post h =
      (Inl max_retries_reached, \<lparr>sleeps = [1, 2, 4, 8, 16], posts = replicate 5 ?p\<rparr>)"
  proof
    assume all: "\<forall>n. \<exists>r. post n ?p = Inr r \<and> status_code r = 500"
    have again: "try_block (post n ?p) = Inr Backoff" for n
    proof -
      from all obtain r where "post n ?p = Inr r" "status_code r = 500" by blast
      then show ?thesis by (simp add: try_block_backoff)
    qed
    then have "\<forall>i<4. transient (try_block (post i ?p))" by simp
    moreover have "4 + 1 = max_retries" by (simp add: max_retries_def)
    ultimately have "get_bot_response post h = (Inl max_retries_reached, run_effects (Suc 4) (Suc 4) ?p)"
      using again [of 4] by (rule run_exhausted)
    also have "run_effects (Suc 4) (Suc 4) ?p = \<lparr>sleeps = [1, 2, 4, 8, 16], posts = replicate 5 ?p\<rparr>"
      by (simp add: run_effects_def upt_rec)
    finally show "get_bot_response post h =
      (Inl max_retries_reached, \<lparr>sleeps = [1, 2, 4, 8, 16], posts = replicate 5 ?p\<rparr>)" .
  qed
qed

theorem server_error_every_time_witness:
  "length (posts (snd (get_bot_response always_500 history12))) \<le> 5 \<and>
   always_500 7 (build_payload history12) = Inr (status_only 500) \<and>
   get_bot_response always_500 history12 =
      (Inl max_retries_reached,
       \<lparr>sleeps = [1, 2, 4, 8, 16], posts = replicate 5 (build_payload history12)\<rparr>)"
  using server_error_every_time [of always_500 history12]
  by (simp add: always_500_def status_only_def)

subsection \<open>Network failures\<close>

text \<open>
  Claim C8. A network-level failure is retried on the schedule of the 429/5xx branch: when
  the first \<open>k\<close> calls (\<open>k < 5\<close>, so none of them is the fifth) fail on the network, the
  run is the very run that 429/5xx responses to those calls would have given, with the
  same result, requests and sleeps, and it starts with the sleeps 1, 2, 4, ... doubling
  each time. The final allowed attempt is the exception: when four retried attempts are
  followed by a network failure of the fifth call, that error itself is raised to the
  caller, with no further sleep.
\<close>

theorem network_failure_backoff:
  "(k < 5 \<and>
    (\<forall>i<k. \<exists>m. post i (build_payload h) = Inl (RequestException m)) \<and>
    (\<forall>i<k. \<exists>r. post' i (build_payload h) = Inr r \<and>
        (status_code r = 429 \<or> (500 \<le> status_code r \<and> status_code r < 600))) \<and>
    (\<forall>i. k \<le> i \<longrightarrow> post' i (build_payload h) = post i (build_payload h)) \<longrightarrow>
    get_bot_response post h = get_bot_response post' h \<and>
    take k (sleeps (snd (get_bot_response post h))) = map (\<lambda>i. 2 ^ i) [0..<k]) \<and>
   ((\<forall>i<4. retryable (post i (build_payload h))) \<and>
    post 4 (build_payload h) = Inl (RequestException m) \<longrightarrow>
    get_bot_response post h =
      (Inl (RequestException m), \<lparr>sleeps = [1, 2, 4, 8], posts = replicate 5 (build_payload h)\<rparr>))"
proof (intro conjI impI)
  let ?p = "build_payload h"
  assume a: "k < 5 \<and>
    (\<forall>i<k. \<exists>m. post i ?p = Inl (RequestException m)) \<and>
    (\<forall>i<k. \<exists>r. post' i ?p = Inr r \<and>
        (status_code r = 429 \<or> (500 \<le> status_code r \<and> status_code r < 600))) \<and>
    (\<forall>i. k \<le> i \<longrightarrow> post' i ?p = post i ?p)"
  let ?fx = "\<lparr>sleeps = map (\<lambda>i. 2 ^ i) [0..<k], posts = replicate k ?p\<rparr>"
  from a have k: "k < max_retries" by (simp add: max_retries_def)
  have t: "\<forall>i<k. transient (try_block (post i ?p))"
  proof (intro allI impI)
    fix i assume "i < k"
    with a obtain m where "post i ?p = Inl (RequestException m)" by blast
    then show "transient (try_block (post i ?p))" by (simp add: try_block_raise)
  qed
  have t': "\<forall>i<k. transient (try_block (post' i ?p))"
  proof (intro allI impI)
    fix i assume "i < k"
    with a obtain r where "post' i ?p = Inr r"
      "status_code r = 429 \<or> (500 \<le> status_code r \<and> status_code r < 600)" by blast
    then show "transient (try_block (post' i ?p))" by (simp add: try_block_backoff)
  qed
  from a have "\<forall>i. length (posts ?fx) \<le> i \<longrightarrow> post' i ?p = post i ?p" by simp
  then have "retry_loop post' ?p k (2 ^ k) ?fx = retry_loop post ?p k (2 ^ k) ?fx"
    by (rule retry_loop_cong)
  then show "get_bot_response post h = get_bot_response post' h"
    using run_prefix [of k post h] run_prefix [of k post' h] t t' k by simp
  from t k show "take k (sleeps (snd (get_bot_response post h))) = map (\<lambda>i. 2 ^ i) [0..<k]"
    by (rule run_sleeps_prefix)
next
  let ?p = "build_payload h"
  assume b: "(\<forall>i<4. retryable (post i ?p)) \<and> post 4 ?p = Inl (RequestException m)"
  then have "\<forall>i<4. transient (try_block (post i ?p))"
    by (simp add: retryable_transient)
  moreover have "4 + 1 = max_retries" by (simp add: max_retries_def)
  moreover from b have "try_block (post 4 ?p) = Inl (RequestException m)"
    by (simp add: try_block_raise)
  moreover have "is_request_exception (RequestException m)" by simp
  ultimately have "get_bot_response post h = (Inl (RequestException m), run_effects 4 (Suc 4) ?p)"
    by (rule run_last_raise)
  also have "run_effects 4 (Suc 4) ?p = \<lparr>sleeps = [1, 2, 4, 8], posts = replicate 5 ?p\<rparr>"
    by (simp add: run_effects_def upt_rec)
  finally show "get_bot_response post h =
      (Inl (RequestException m), \<lparr>sleeps = [1, 2, 4, 8], posts = replicate 5 ?p\<rparr>)" .
qed

theorem network_failure_backoff_witness:
  "unreachable 0 (build_payload []) = Inl (RequestException ''connection refused'') \<and>
   limited_then_unreachable 0 (build_payload []) = Inr (status_only 429) \<and>
   limited_then_unreachable 4 (build_payload []) = unreachable 4 (build_payload []) \<and>
   get_bot_response unreachable [] = get_bot_response limited_then_unreachable [] \<and>
   take 4 (sleeps (snd (get_bot_response unreachable []))) = [1, 2, 4, 8] \<and>
   get_bot_response unreachable [] =
     (Inl (RequestException ''connection refused''),
      \<lparr>sleeps = [1, 2, 4, 8], posts = replicate 5 (build_payload [])\<rparr>)"
proof -
  let ?p = "build_payload []"
  note both = network_failure_backoff
    [of 4 unreachable "[]" limited_then_unreachable "''connection refused''"]
  have h1: "(4::nat) < 5 \<and>
    (\<forall>i<4. \<exists>m. unreachable i ?p = Inl (RequestException m)) \<and>
    (\<forall>i<4. \<exists>r. limited_then_unreachable i ?p = Inr r \<and>
        (status_code r = 429 \<or> (500 \<le> status_code r \<and> status_code r < 600))) \<and>
    (\<forall>i. 4 \<le> i \<longrightarrow> limited_then_unreachable i ?p = unreachable i ?p)"
    by (simp add: unreachable_def limited_then_unreachable_def status_only_def)
  have h2: "(\<forall>i<4. retryable (unreachable i ?p)) \<and>
    unreachable 4 ?p = Inl (RequestException ''connection refused'')"
    by (simp add: unreachable_def)
  note first = both [THEN conjunct1, THEN mp, OF h1]
  have same: "get_bot_response unreachable [] = get_bot_response limited_then_unreachable []"
    by (rule first [THEN conjunct1])
  have slept: "take 4 (sleeps (snd (get_bot_response unreachable []))) = map (\<lambda>i. 2 ^ i) [0..<4]"
    by (rule first [THEN conjunct2])
  have sched: "map (\<lambda>i. 2 ^ i) [0..<4] = [1, 2, 4, 8 :: int]"
    by (simp add: upt_rec)
  from both [THEN conjunct2, THEN mp, OF h2]
  have raised: "get_bot_response unreachable [] =
     (Inl (RequestException ''connection refused''),
      \<lparr>sleeps = [1, 2, 4, 8], posts = replicate 5 ?p\<rparr>)" .
  have inputs: "unreachable 0 ?p = Inl (RequestException ''connection refused'')"
    "limited_then_unreachable 0 ?p = Inr (status_only 429)"
    "limited_then_unreachable 4 ?p = unreachable 4 ?p"
    by (simp_all add: unreachable_def limited_then_unreachable_def)
  from inputs same slept [unfolded sched] raised show ?thesis by (intro conjI)
qed

subsection \<open>Responses with a success status\<close>

text \<open>
  Claim C9 fails as stated. A response can have a 2xx status and a body that is not JSON:
  then \<open>response.json()\<close> at line 62 raises, and when what it raises is a request exception
  the handler of line 98 retries; on the fifth attempt line 101 raises it to the caller.
\<close>

theorem success_status_counterexample:
  "unparsed_200 4 (build_payload []) =
     Inr \<lparr>status_code = 200, json_body = Inl (RequestException ''no JSON body'')\<rparr> \<and>
   get_bot_response unparsed_200 [] =
     (Inl (RequestException ''no JSON body''),
      \<lparr>sleeps = [1, 2, 4, 8], posts = replicate 5 (build_payload [])\<rparr>) \<and>
   \<not> (\<exists>a srcs. fst (get_bot_response unparsed_200 []) = Inr (a, srcs))"
proof -
  let ?p = "build_payload []"
  let ?e = "RequestException ''no JSON body''"
  have resp: "unparsed_200 n ?p = Inr \<lparr>status_code = 200, json_body = Inl ?e\<rparr>" for n
    by (simp add: unparsed_200_def status_only_def)
  have tb: "try_block (unparsed_200 n ?p) = Inl ?e" for n
    by (simp add: resp try_block_def ok_def bind_exn_def)
  have "\<forall>i<4. transient (try_block (unparsed_200 i ?p))"
    by (simp add: tb)
  moreover have "4 + 1 = max_retries" by (simp add: max_retries_def)
  moreover note tb [of 4]
  moreover have "is_request_exception ?e" by simp
  ultimately have "get_bot_response unparsed_200 [] = (Inl ?e, run_effects 4 (Suc 4) ?p)"
    by (rule run_last_raise)
  also have "run_effects 4 (Suc 4) ?p = \<lparr>sleeps = [1, 2, 4, 8], posts = replicate 5 ?p\<rparr>"
    by (simp add: run_effects_def upt_rec)
  finally have run: "get_bot_response unparsed_200 [] =
     (Inl ?e, \<lparr>sleeps = [1, 2, 4, 8], posts = replicate 5 ?p\<rparr>)" .
  then have "\<not> (\<exists>a srcs. fst (get_bot_response unparsed_200 []) = Inr (a, srcs))" by simp
  with resp [of 4] run show ?thesis by (intro conjI)
qed

text \<open>
  Claim C9, amended. Whenever the function makes a call and the transport answers it with
  a 2xx status and a body that \<open>response.json()\<close> parses, the function makes no further
  call and returns a pair, whatever the shape of the body: the text and sources that line
  84 returns, or the apology of line 107 with an empty source list for the exception that
  reading the body raised. A body whose \<open>candidates\<close> is the empty list gives the apology
  for the \<open>IndexError\<close> of the in-line indexing, a body whose text is the empty string the
  apology for the exception of line 69. The function is total: it is defined by a
  terminating recursion.
\<close>

theorem success_status_never_raises:
  assumes "k < length (posts (snd (get_bot_response post h)))"
    and "post k (build_payload h) = Inr r"
    and "200 \<le> status_code r" and "status_code r < 300"
    and "json_body r = Inr body"
  shows "\<exists>a srcs.
           get_bot_response post h = (Inr (a, srcs), run_effects k (Suc k) (build_payload h)) \<and>
           ((\<exists>t. a = Answer t \<and> read_result body = Inr (t, srcs)) \<or>
            (\<exists>e. a = Apology e \<and> srcs = [] \<and> read_result body = Inl e)) \<and>
           (field ''candidates'' body = Some (JArr []) \<longrightarrow> a = Apology IndexError \<and> srcs = []) \<and>
           (extracted_text body = Some (JStr []) \<longrightarrow>
              a = Apology (PyException (JStr ''Invalid response structure from API.'')) \<and> srcs = [])"
proof -
  let ?p = "build_payload h"
  from assms(3,4) have ok: "ok r" by (simp add: ok_def)
  have tb: "try_block (post k ?p) =
      (case read_result body of Inl e \<Rightarrow> Inl e | Inr (t, s) \<Rightarrow> Inr (Returned (Answer t, s)))"
    using assms(2,5) ok by (simp add: try_block_ok)
  have no_cand: "read_result body = Inl IndexError" if "field ''candidates'' body = Some (JArr [])"
    using py_get_field [OF that, of "JArr [JObj []]"] by (simp add: read_result_def bind_exn_def)
  have empty: "read_result body = Inl (PyException (JStr ''Invalid response structure from API.''))"
    if "extracted_text body = Some (JStr [])"
  proof -
    from that obtain c where "first_candidate body = Some c"
      by (auto simp: extracted_text_def bind_eq_Some_conv)
    from read_result_text [OF this that] show ?thesis by simp
  qed
  show ?thesis
  proof (cases "read_result body")
    case (Inl e)
    then have "\<not> is_request_exception e" "printable e"
      by (rule read_result_raises, rule read_result_printable)
    with tb Inl assms(1) have "get_bot_response post h = (Inr (Apology e, []), run_effects k (Suc k) ?p)"
      by (intro run_ends_apology) simp_all
    with Inl no_cand empty show ?thesis by auto
  next
    case (Inr x)
    obtain t s where x: "x = (t, s)" by (cases x)
    with tb Inr assms(1) have "get_bot_response post h = (Inr (Answer t, s), run_effects k (Suc k) ?p)"
      by (intro run_ends_returned) simp_all
    with Inr x no_cand empty show ?thesis by auto
  qed
qed

theorem success_status_never_raises_witness:
  "0 < length (posts (snd (get_bot_response (body_200 no_candidates_body) []))) \<and>
   body_200 no_candidates_body 0 (build_payload []) =
     Inr \<lparr>status_code = 200, json_body = Inr no_candidates_body\<rparr> \<and>
   field ''candidates'' no_candidates_body = Some (JArr []) \<and>
   get_bot_response (body_200 no_candidates_body) [] =
     (Inr (Apology IndexError, []), \<lparr>sleeps = [], posts = [build_payload []]\<rparr>)"
proof -
  let ?post = "body_200 no_candidates_body"
  have made: "0 < length (posts (snd (get_bot_response ?post [])))"
    by (rule first_attempt_made)
  have resp: "?post 0 (build_payload []) = Inr \<lparr>status_code = 200, json_body = Inr no_candidates_body\<rparr>"
    by (simp add: body_200_def)
  have cand: "field ''candidates'' no_candidates_body = Some (JArr [])"
    by (simp add: no_candidates_body_def)
  from success_status_never_raises [of 0 ?post "[]" _ no_candidates_body] made resp cand
  have "get_bot_response ?post [] = (Inr (Apology IndexError, []), run_effects 0 (Suc 0) (build_payload []))"
    by auto
  with made resp cand show ?thesis by (simp only: no_effects) 
qed

text \<open>
  Claim C4 fails as stated. On a 200 response whose text is the empty string the function
  does not raise: it returns the apology for the exception of line 69, with no sources.
\<close>

theorem unusable_text_counterexample:
  "body_200 empty_text_body 0 (build_payload []) =
     Inr \<lparr>status_code = 200, json_body = Inr empty_text_body\<rparr> \<and>
   extracted_text empty_text_body = Some (JStr []) \<and>
   get_bot_response (body_200 empty_text_body) [] =
     (Inr (Apology (PyException (JStr ''Invalid response structure from API.'')), []),
      \<lparr>sleeps = [], posts = [build_payload []]\<rparr>) \<and>
   \<not> (\<exists>e. fst (get_bot_response (body_200 empty_text_body) []) = Inl e)"
proof -
  let ?post = "body_200 empty_text_body"
  have absent: "extracted_text empty_text_body = Some (JStr [])"
    by (simp add: extracted_text_def first_candidate_def empty_text_body_def)
  have "read_result empty_text_body = Inl (PyException (JStr ''Invalid response structure from API.''))"
    by (simp add: read_result_def empty_text_body_def bind_exn_def)
  then have "try_block (?post 0 (build_payload [])) =
      Inl (PyException (JStr ''Invalid response structure from API.''))"
    by (simp add: body_200_def try_block_ok ok_def)
  then have "get_bot_response ?post [] =
     (Inr (Apology (PyException (JStr ''Invalid response structure from API.'')), []),
      run_effects 0 (Suc 0) (build_payload []))"
    by (intro run_apology) (simp_all add: max_retries_def)
  then have run: "get_bot_response ?post [] =
     (Inr (Apology (PyException (JStr ''Invalid response structure from API.'')), []),
      \<lparr>sleeps = [], posts = [build_payload []]\<rparr>)"
    by (simp only: no_effects)
  then have "\<not> (\<exists>e. fst (get_bot_response ?post []) = Inl e)" by simp
  with absent run show ?thesis by (simp add: body_200_def)
qed

text \<open>
  Claim C4, amended. Whenever the function makes a call and the transport answers it with
  a 2xx status and a JSON body whose \<open>candidates[0].content.parts[0].text\<close> is absent or
  the empty string, the function stops there, with no further call and no further sleep,
  and returns the apology of line 107 with an empty source list; for the empty string the
  apology is for the exception of line 69.
\<close>

theorem unusable_text_is_apology:
  assumes "k < length (posts (snd (get_bot_response post h)))"
    and "post k (build_payload h) = Inr r"
    and "200 \<le> status_code r" and "status_code r < 300"
    and "json_body r = Inr body"
    and "extracted_text body = None \<or> extracted_text body = Some (JStr [])"
  shows "\<exists>e. get_bot_response post h =
               (Inr (Apology e, []), run_effects k (Suc k) (build_payload h)) \<and>
             (extracted_text body = Some (JStr []) \<longrightarrow>
                e = PyException (JStr ''Invalid response structure from API.''))"
proof -
  let ?p = "build_payload h"
  from assms(3,4) have ok: "ok r" by (simp add: ok_def)
  from read_result_unusable [OF assms(6)] obtain e where
    e: "read_result body = Inl e" "\<not> is_request_exception e" "printable e" by blast
  with assms(2,5) ok have "try_block (post k ?p) = Inl e" by (simp add: try_block_ok)
  with assms(1) e(2,3) have run: "get_bot_response post h = (Inr (Apology e, []), run_effects k (Suc k) ?p)"
    by (intro run_ends_apology) simp_all
  have "e = PyException (JStr ''Invalid response structure from API.'')"
    if t: "extracted_text body = Some (JStr [])"
  proof -
    from t obtain c where "first_candidate body = Some c"
      by (auto simp: extracted_text_def bind_eq_Some_conv)
    from read_result_text [OF this t] e(1) show ?thesis by simp
  qed
  with run show ?thesis by blast
qed

theorem unusable_text_is_apology_witness:
  "0 < length (posts (snd (get_bot_response (body_200 (JObj [])) history12))) \<and>
   body_200 (JObj []) 0 (build_payload history12) = Inr \<lparr>status_code = 200, json_body = Inr (JObj [])\<rparr> \<and>
   extracted_text (JObj []) = None \<and>
   (\<exists>e. get_bot_response (body_200 (JObj [])) history12 =
          (Inr (Apology e, []), \<lparr>sleeps = [], posts = [build_payload history12]\<rparr>))"
proof -
  let ?post = "body_200 (JObj [])"
  have made: "0 < length (posts (snd (get_bot_response ?post history12)))"
    by (rule first_attempt_made)
  have resp: "?post 0 (build_payload history12) = Inr \<lparr>status_code = 200, json_body = Inr (JObj [])\<rparr>"
    by (simp add: body_200_def)
  have absent: "extracted_text (JObj []) = None"
    by (simp add: extracted_text_def first_candidate_def)
  from unusable_text_is_apology [of 0 ?post history12 _ "JObj []"] made resp absent
  have "\<exists>e. get_bot_response ?post history12 =
          (Inr (Apology e, []), run_effects 0 (Suc 0) (build_payload history12))"
    by auto
  with made resp absent show ?thesis by (simp only: no_effects)
qed

subsection \<open>Client errors\<close>

text \<open>
  Claim C3 fails as stated. On a 400 response with the body
  \<open>{"error": {"message": "bad key"}}\<close> the function does not raise: the exception of line
  96 is caught at line 105 and the function returns the apology for it, with no sources.
\<close>

theorem client_error_counterexample:
  "get_bot_response bad_key_400 [] =
     (Inr (Apology (PyException (JStr ''bad key'')), []),
      \<lparr>sleeps = [], posts = [build_payload []]\<rparr>) \<and>
   \<not> (\<exists>e. fst (get_bot_response bad_key_400 []) = Inl e)"
proof -
  have "try_block (bad_key_400 0 (build_payload [])) = Inl (PyException (JStr ''bad key''))"
    by (simp add: bad_key_400_def try_block_def ok_def bind_exn_def)
  then have "get_bot_response bad_key_400 [] =
     (Inr (Apology (PyException (JStr ''bad key'')), []), run_effects 0 (Suc 0) (build_payload []))"
    by (intro run_apology) (simp_all add: max_retries_def)
  then have run: "get_bot_response bad_key_400 [] =
     (Inr (Apology (PyException (JStr ''bad key'')), []), \<lparr>sleeps = [], posts = [build_payload []]\<rparr>)"
    by (simp only: no_effects)
  then have "\<not> (\<exists>e. fst (get_bot_response bad_key_400 []) = Inl e)" by simp
  with run show ?thesis by simp
qed

text \<open>
  The apology is returned only after line 106 has printed the exception. When the
  provider's message is a string with a lone surrogate, that print raises and the
  function raises \<open>UnicodeEncodeError\<close> on its first attempt.
\<close>

lemma surrogate_message_raises:
  "get_bot_response surrogate_400 h =
     (Inl UnicodeEncodeError, \<lparr>sleeps = [], posts = [build_payload h]\<rparr>)"
proof -
  let ?e = "PyException (JStr [CHR 0xED, CHR 0xA0, CHR 0x80])"
  have "\<forall>i<0. transient (try_block (surrogate_400 i (build_payload h)))" by simp
  moreover have "(0::nat) < max_retries" by (simp add: max_retries_def)
  moreover have "try_block (surrogate_400 0 (build_payload h)) = Inl ?e"
    by (simp add: surrogate_400_def try_block_def ok_def bind_exn_def)
  moreover have "\<not> is_request_exception ?e" by simp
  moreover have "\<not> printable ?e" by simp
  ultimately have "get_bot_response surrogate_400 h =
      (Inl UnicodeEncodeError, run_effects 0 (Suc 0) (build_payload h))"
    by (rule run_print_raises)
  then show ?thesis by (simp only: no_effects)
qed

text \<open>
  Claim C3, amended. When the first call is answered with a status from 400 to 499 other
  than 429 and a JSON body whose message at \<open>error.message\<close>, if it is a string, has no
  lone surrogate, the function makes no other call and never sleeps, and returns the
  apology of line 107 with an empty source list; when the body has a message at
  \<open>error.message\<close>, the apology is for the exception carrying that message.
\<close>

theorem client_error_is_apology:
  assumes "post 0 (build_payload h) = Inr r"
    and "400 \<le> status_code r" and "status_code r < 500" and "status_code r \<noteq> 429"
    and "json_body r = Inr body"
    and "\<forall>s. provider_message body = Some (JStr s) \<longrightarrow> \<not> has_surrogate s"
  shows "\<exists>e. get_bot_response post h =
               (Inr (Apology e, []), \<lparr>sleeps = [], posts = [build_payload h]\<rparr>) \<and>
             (\<forall>m. provider_message body = Some m \<longrightarrow> e = PyException m)"
proof -
  let ?p = "build_payload h"
  from try_block_client_error [OF assms(2-5)] assms(1,6) obtain e where
    e: "try_block (post 0 ?p) = Inl e" "\<not> is_request_exception e" "printable e"
       "\<forall>m. provider_message body = Some m \<longrightarrow> e = PyException m"
    by auto
  from e(1,2,3) have "get_bot_response post h = (Inr (Apology e, []), run_effects 0 (Suc 0) ?p)"
    by (intro run_apology) (simp_all add: max_retries_def)
  then have "get_bot_response post h = (Inr (Apology e, []), \<lparr>sleeps = [], posts = [?p]\<rparr>)"
    by (simp only: no_effects)
  with e(4) show ?thesis by blast
qed

theorem client_error_is_apology_witness:
  "bad_key_400 0 (build_payload history12) =
     Inr \<lparr>status_code = 400,
          json_body = Inr (JObj [(''error'', JObj [(''message'', JStr ''bad key'')])])\<rparr> \<and>
   provider_message (JObj [(''error'', JObj [(''message'', JStr ''bad key'')])]) = Some (JStr ''bad key'') \<and>
   \<not> has_surrogate ''bad key'' \<and>
   get_bot_response bad_key_400 history12 =
     (Inr (Apology (PyException (JStr ''bad key'')), []),
      \<lparr>sleeps = [], posts = [build_payload history12]\<rparr>)"
proof -
  let ?body = "JObj [(''error'', JObj [(''message'', JStr ''bad key'')])]"
  have resp: "bad_key_400 0 (build_payload history12) = Inr \<lparr>status_code = 400, json_body = Inr ?body\<rparr>"
    by (simp add: bad_key_400_def)
  have msg: "provider_message ?body = Some (JStr ''bad key'')"
    by (simp add: provider_message_def)
  have enc: "\<not> has_surrogate ''bad key''" by simp
  from msg enc have hyp: "\<forall>s. provider_message ?body = Some (JStr s) \<longrightarrow> \<not> has_surrogate s"
    by simp
  from client_error_is_apology [of bad_key_400 history12 _ ?body] resp msg hyp
  have "get_bot_response bad_key_400 history12 =
     (Inr (Apology (PyException (JStr ''bad key'')), []),
      \<lparr>sleeps = [], posts = [build_payload history12]\<rparr>)"
    by auto
  with resp msg enc show ?thesis by (intro conjI)
qed

subsection \<open>Which errors are raised and which are returned\<close>

text \<open>
  Claim C2 fails as stated. On a 403 response with an empty JSON object the function does
  not raise: it returns the apology for the exception of line 96.
\<close>

theorem placeholder_counterexample:
  "get_bot_response forbidden_403 [] =
     (Inr (Apology (PyException (JStr ''HTTP error! status: 403'')), []),
      \<lparr>sleeps = [], posts = [build_payload []]\<rparr>) \<and>
   \<not> (\<exists>e. fst (get_bot_response forbidden_403 []) = Inl e)"
proof -
  have "py_str_int 403 = ''403''"
    by (simp add: py_str_int_def digits.simps)
  then have "try_block (forbidden_403 0 (build_payload [])) =
      Inl (PyException (JStr ''HTTP error! status: 403''))"
    by (simp add: forbidden_403_def try_block_def ok_def bind_exn_def)
  then have "get_bot_response forbidden_403 [] =
     (Inr (Apology (PyException (JStr ''HTTP error! status: 403'')), []),
      run_effects 0 (Suc 0) (build_payload []))"
    by (intro run_apology) (simp_all add: max_retries_def)
  then have run: "get_bot_response forbidden_403 [] =
     (Inr (Apology (PyException (JStr ''HTTP error! status: 403'')), []),
      \<lparr>sleeps = [], posts = [build_payload []]\<rparr>)"
    by (simp only: no_effects)
  then have "\<not> (\<exists>e. fst (get_bot_response forbidden_403 []) = Inl e)" by simp
  with run show ?thesis by simp
qed

text \<open>
  Claim C2, amended. An execution that ends in exhausted retries raises: when each of the
  five calls fails on the network or is answered with 429 or 5xx, and the fifth is
  answered, the function sleeps 1, 2, 4, 8 and 16 seconds and raises the exception of line
  109 to its caller. Apart from the \<open>UnicodeEncodeError\<close> of a print, the function raises
  only after its fifth call: that exception, or the request exception that the fifth call
  or its \<open>response.json()\<close> raised. A run in which a call is answered with a 2xx status
  and a JSON body whose text is absent or empty, or with a status from 400 to 499 other
  than 429 and a JSON body whose message, if it is a string, has no lone surrogate, does
  not raise: the function stops at that call and itself returns the apology of line 107
  with an empty source list.
\<close>

theorem raised_and_returned_errors:
  "((\<forall>i<5. retryable (post i (build_payload h))) \<and> (\<exists>r'. post 4 (build_payload h) = Inr r') \<longrightarrow>
      get_bot_response post h =
        (Inl max_retries_reached,
         \<lparr>sleeps = [1, 2, 4, 8, 16], posts = replicate 5 (build_payload h)\<rparr>)) \<and>
   (\<forall>e. fst (get_bot_response post h) = Inl e \<and> e \<noteq> UnicodeEncodeError \<longrightarrow>
      length (posts (snd (get_bot_response post h))) = 5 \<and>
      ((e = max_retries_reached \<and>
        (\<exists>r'. post 4 (build_payload h) = Inr r' \<and>
           (status_code r' = 429 \<or> (500 \<le> status_code r' \<and> status_code r' < 600)))) \<or>
       (is_request_exception e \<and>
        (post 4 (build_payload h) = Inl e \<or>
         (\<exists>r'. post 4 (build_payload h) = Inr r' \<and> json_body r' = Inl e))))) \<and>
   (k < length (posts (snd (get_bot_response post h))) \<and>
    post k (build_payload h) = Inr r \<and> json_body r = Inr body \<and>
    ((200 \<le> status_code r \<and> status_code r < 300 \<and>
      (extracted_text body = None \<or> extracted_text body = Some (JStr []))) \<or>
     (400 \<le> status_code r \<and> status_code r < 500 \<and> status_code r \<noteq> 429 \<and>
      (\<forall>s. provider_message body = Some (JStr s) \<longrightarrow> \<not> has_surrogate s))) \<longrightarrow>
    (\<exists>e. get_bot_response post h =
            (Inr (Apology e, []), run_effects k (Suc k) (build_payload h))))"
proof (intro conjI)
  let ?p = "build_payload h"
  show "(\<forall>i<5. retryable (post i ?p)) \<and> (\<exists>r'. post 4 ?p = Inr r') \<longrightarrow>
      get_bot_response post h =
        (Inl max_retries_reached, \<lparr>sleeps = [1, 2, 4, 8, 16], posts = replicate 5 ?p\<rparr>)"
  proof
    assume a: "(\<forall>i<5. retryable (post i ?p)) \<and> (\<exists>r'. post 4 ?p = Inr r')"
    then have "\<forall>i<4. transient (try_block (post i ?p))"
      by (simp add: retryable_transient)
    moreover have "4 + 1 = max_retries" by (simp add: max_retries_def)
    moreover have "try_block (post 4 ?p) = Inr Backoff"
    proof -
      from a obtain r' where r': "post 4 ?p = Inr r'" by blast
      from a have "retryable (post 4 ?p)" by simp
      with r' show ?thesis by (simp add: try_block_backoff)
    qed
    ultimately have "get_bot_response post h =
        (Inl max_retries_reached, run_effects (Suc 4) (Suc 4) ?p)"
      by (rule run_exhausted)
    also have "run_effects (Suc 4) (Suc 4) ?p = \<lparr>sleeps = [1, 2, 4, 8, 16], posts = replicate 5 ?p\<rparr>"
      by (simp add: run_effects_def upt_rec)
    finally show "get_bot_response post h =
        (Inl max_retries_reached, \<lparr>sleeps = [1, 2, 4, 8, 16], posts = replicate 5 ?p\<rparr>)" .
  qed
next
  let ?p = "build_payload h"
  have "length (posts (snd (get_bot_response post h))) = 5 \<and>
      ((e = max_retries_reached \<and>
        (\<exists>r'. post 4 ?p = Inr r' \<and>
           (status_code r' = 429 \<or> (500 \<le> status_code r' \<and> status_code r' < 600)))) \<or>
       (is_request_exception e \<and>
        (post 4 ?p = Inl e \<or> (\<exists>r'. post 4 ?p = Inr r' \<and> json_body r' = Inl e))))"
    if raised: "fst (get_bot_response post h) = Inl e" and other: "e \<noteq> UnicodeEncodeError" for e
  proof -
    from run_shape [of post h] obtain n where shape: "ends_at post h n" by blast
    from shape raised other consider
      (network) "try_block (post n ?p) = Inl e" "is_request_exception e" "n + 1 = max_retries"
        "get_bot_response post h = (Inl e, run_effects n (Suc n) ?p)"
    | (exhausted) "try_block (post n ?p) = Inr Backoff" "n + 1 = max_retries"
        "get_bot_response post h = (Inl max_retries_reached, run_effects (Suc n) (Suc n) ?p)"
        "e = max_retries_reached"
      by (elim disjE exE conjE) auto
    then show ?thesis
    proof cases
      case network
      from network(3) have n: "n = 4" by (simp add: max_retries_def)
      from network(4) n have "length (posts (snd (get_bot_response post h))) = 5"
        by (simp add: run_effects_def)
      moreover from try_block_request_exception [OF network(1,2)] n
      have "post 4 ?p = Inl e \<or> (\<exists>r'. post 4 ?p = Inr r' \<and> json_body r' = Inl e)" by simp
      ultimately show ?thesis using network(2) by blast
    next
      case exhausted
      from exhausted(2) have n: "n = 4" by (simp add: max_retries_def)
      from exhausted(3) n have "length (posts (snd (get_bot_response post h))) = 5"
        by (simp add: run_effects_def)
      moreover from try_block_Backoff [OF exhausted(1)] n
      have "\<exists>r'. post 4 ?p = Inr r' \<and>
             (status_code r' = 429 \<or> (500 \<le> status_code r' \<and> status_code r' < 600))" by simp
      ultimately show ?thesis using exhausted(4) by blast
    qed
  qed
  then show "\<forall>e. fst (get_bot_response post h) = Inl e \<and> e \<noteq> UnicodeEncodeError \<longrightarrow>
      length (posts (snd (get_bot_response post h))) = 5 \<and>
      ((e = max_retries_reached \<and>
        (\<exists>r'. post 4 ?p = Inr r' \<and>
           (status_code r' = 429 \<or> (500 \<le> status_code r' \<and> status_code r' < 600)))) \<or>
       (is_request_exception e \<and>
        (post 4 ?p = Inl e \<or> (\<exists>r'. post 4 ?p = Inr r' \<and> json_body r' = Inl e))))"
    by blast
next
  let ?p = "build_payload h"
  show "k < length (posts (snd (get_bot_response post h))) \<and>
    post k ?p = Inr r \<and> json_body r = Inr body \<and>
    ((200 \<le> status_code r \<and> status_code r < 300 \<and>
      (extracted_text body = None \<or> extracted_text body = Some (JStr []))) \<or>
     (400 \<le> status_code r \<and> status_code r < 500 \<and> status_code r \<noteq> 429 \<and>
      (\<forall>s. provider_message body = Some (JStr s) \<longrightarrow> \<not> has_surrogate s))) \<longrightarrow>
    (\<exists>e. get_bot_response post h = (Inr (Apology e, []), run_effects k (Suc k) ?p))"
  proof
    assume a: "k < length (posts (snd (get_bot_response post h))) \<and>
      post k ?p = Inr r \<and> json_body r = Inr body \<and>
      ((200 \<le> status_code r \<and> status_code r < 300 \<and>
        (extracted_text body = None \<or> extracted_text body = Some (JStr []))) \<or>
       (400 \<le> status_code r \<and> status_code r < 500 \<and> status_code r \<noteq> 429 \<and>
        (\<forall>s. provider_message body = Some (JStr s) \<longrightarrow> \<not> has_surrogate s)))"
    then have made: "k < length (posts (snd (get_bot_response post h)))"
      and resp: "post k ?p = Inr r" and body: "json_body r = Inr body" by simp_all
    have "\<exists>e. try_block (post k ?p) = Inl e \<and> \<not> is_request_exception e \<and> printable e"
    proof -
      from a consider
        (malformed) "200 \<le> status_code r" "status_code r < 300"
          "extracted_text body = None \<or> extracted_text body = Some (JStr [])"
      | (client) "400 \<le> status_code r" "status_code r < 500" "status_code r \<noteq> 429"
          "\<forall>s. provider_message body = Some (JStr s) \<longrightarrow> \<not> has_surrogate s"
        by blast
      then show ?thesis
      proof cases
        case malformed
        from malformed(1,2) have "ok r" by (simp add: ok_def)
        with read_result_unusable [OF malformed(3)] resp body show ?thesis
          by (auto simp: try_block_ok)
      next
        case client
        from try_block_client_error [OF client(1-3) body] resp client(4) show ?thesis by auto
      qed
    qed
    then obtain e where "try_block (post k ?p) = Inl e" "\<not> is_request_exception e" "printable e"
      by blast
    with made have "get_bot_response post h = (Inr (Apology e, []), run_effects k (Suc k) ?p)"
      by (intro run_ends_apology)
    then show "\<exists>e. get_bot_response post h = (Inr (Apology e, []), run_effects k (Suc k) ?p)" ..
  qed
qed

theorem raised_and_returned_errors_witness:
  "always_500 4 (build_payload []) = Inr (status_only 500) \<and>
   get_bot_response always_500 [] =
     (Inl max_retries_reached,
      \<lparr>sleeps = [1, 2, 4, 8, 16], posts = replicate 5 (build_payload [])\<rparr>) \<and>
   forbidden_403 0 (build_payload []) = Inr \<lparr>status_code = 403, json_body = Inr (JObj [])\<rparr> \<and>
   provider_message (JObj []) = None \<and>
   (\<exists>e. get_bot_response forbidden_403 [] =
          (Inr (Apology e, []), \<lparr>sleeps = [], posts = [build_payload []]\<rparr>))"
proof -
  let ?p = "build_payload []"
  let ?r = "\<lparr>status_code = 403, json_body = Inr (JObj [])\<rparr>"
  have all: "(\<forall>i<5. retryable (always_500 i ?p)) \<and> (\<exists>r'. always_500 4 ?p = Inr r')"
    by (simp add: always_500_def status_only_def)
  from raised_and_returned_errors [of always_500 "[]" 0 ?r JNull, THEN conjunct1, THEN mp, OF all]
  have raised: "get_bot_response always_500 [] =
     (Inl max_retries_reached, \<lparr>sleeps = [1, 2, 4, 8, 16], posts = replicate 5 ?p\<rparr>)" .
  have fifth: "always_500 4 ?p = Inr (status_only 500)" by (simp add: always_500_def)
  have resp: "forbidden_403 0 ?p = Inr ?r" by (simp add: forbidden_403_def)
  have none: "provider_message (JObj []) = None" by (simp add: provider_message_def)
  have hyp: "0 < length (posts (snd (get_bot_response forbidden_403 []))) \<and>
    forbidden_403 0 ?p = Inr ?r \<and> json_body ?r = Inr (JObj []) \<and>
    ((200 \<le> status_code ?r \<and> status_code ?r < 300 \<and>
      (extracted_text (JObj []) = None \<or> extracted_text (JObj []) = Some (JStr []))) \<or>
     (400 \<le> status_code ?r \<and> status_code ?r < 500 \<and> status_code ?r \<noteq> 429 \<and>
      (\<forall>s. provider_message (JObj []) = Some (JStr s) \<longrightarrow> \<not> has_surrogate s)))"
    using first_attempt_made [of forbidden_403 "[]"] none by (simp add: forbidden_403_def)
  from raised_and_returned_errors [of forbidden_403 "[]" 0 ?r "JObj []",
     THEN conjunct2, THEN conjunct2, THEN mp, OF hyp]
  have "\<exists>e. get_bot_response forbidden_403 [] = (Inr (Apology e, []), run_effects 0 (Suc 0) ?p)" .
  then have "\<exists>e. get_bot_response forbidden_403 [] =
          (Inr (Apology e, []), \<lparr>sleeps = [], posts = [?p]\<rparr>)"
    by (simp only: no_effects)
  with fifth raised resp none show ?thesis by (intro conjI)
qed

subsection \<open>Grounding sources\<close>

text \<open>What the specification's sources of a candidate are in the two cases it names.\<close>

lemma cited_sources_list:
  "attributions candidate = Some (JArr attrs) \<Longrightarrow>
   cited_sources candidate = List.map_filter source_of attrs"
  by (simp add: cited_sources_def)

lemma cited_sources_absent:
  "field ''groundingMetadata'' candidate = None \<or>
   field ''groundingMetadata'' candidate = Some (JObj []) \<Longrightarrow>
   cited_sources candidate = []"
  by (auto simp: cited_sources_def attributions_def)



subsection \<open>The argument is not mutated\<close>

text \<open>A new list leaves every existing list as it was.\<close>

lemma new_list_frame:
  assumes "new_list xs s = (a, s')"
  shows "cells s' a = xs" and "next_addr s' = next_addr s + 1"
    and "b < next_addr s \<Longrightarrow> cells s' b = cells s b"
  using assms by (auto simp: new_list_def)

lemma build_payload_store_frame:
  assumes "build_payload_store chat_history s = (a, s')"
  shows "cells s' a = contents (build_payload (cells s chat_history)) \<and>
         next_addr s \<le> next_addr s' \<and>
         (\<forall>b. b < next_addr s \<longrightarrow> cells s' b = cells s b)"
proof -
  obtain r1 s1 where n1: "new_list (filter (\<lambda>msg. role msg \<noteq> ''system'') (cells s chat_history)) s = (r1, s1)"
    by (cases "new_list (filter (\<lambda>msg. role msg \<noteq> ''system'') (cells s chat_history)) s")
  obtain r2 s2 where n2: "new_list (py_last max_history_length (cells s1 r1)) s1 = (r2, s2)"
    by (cases "new_list (py_last max_history_length (cells s1 r1)) s1")
  obtain l3 s3 where n3: "new_list [system_message] s2 = (l3, s3)"
    by (cases "new_list [system_message] s2")
  obtain f4 s4 where n4: "new_list (cells s3 l3 @ cells s3 r2) s3 = (f4, s4)"
    by (cases "new_list (cells s3 l3 @ cells s3 r2) s3")
  from assms n1 n2 n3 n4 have res: "a = f4" "s' = s4"
    by (simp_all add: build_payload_store_def)
  have r2: "r2 < next_addr s2"
    using n2 by (auto simp: new_list_def)
  have c1: "cells s1 r1 = filter (\<lambda>msg. role msg \<noteq> ''system'') (cells s chat_history)"
    by (rule new_list_frame(1) [OF n1])
  have c2: "cells s2 r2 = py_last max_history_length (cells s1 r1)"
    by (rule new_list_frame(1) [OF n2])
  have c3: "cells s3 l3 = [system_message]"
    by (rule new_list_frame(1) [OF n3])
  have c3': "cells s3 r2 = cells s2 r2"
    using r2 by (rule new_list_frame(3) [OF n3])
  have c4: "cells s4 f4 = cells s3 l3 @ cells s3 r2"
    by (rule new_list_frame(1) [OF n4])
  have "cells s4 f4 = contents (build_payload (cells s chat_history))"
    by (simp add: c4 c3 c3' c2 c1 build_payload_def)
  moreover have "next_addr s \<le> next_addr s4"
    by (simp add: new_list_frame(2) [OF n1] new_list_frame(2) [OF n2]
        new_list_frame(2) [OF n3] new_list_frame(2) [OF n4])
  moreover have "\<forall>b. b < next_addr s \<longrightarrow> cells s4 b = cells s b"
  proof (intro allI impI)
    fix b assume b: "b < next_addr s"
    then have b1: "b < next_addr s1" by (simp add: new_list_frame(2) [OF n1])
    then have b2: "b < next_addr s2" by (simp add: new_list_frame(2) [OF n2])
    then have b3: "b < next_addr s3" by (simp add: new_list_frame(2) [OF n3])
    have "cells s4 b = cells s3 b" using b3 by (rule new_list_frame(3) [OF n4])
    also have "\<dots> = cells s2 b" using b2 by (rule new_list_frame(3) [OF n3])
    also have "\<dots> = cells s1 b" using b1 by (rule new_list_frame(3) [OF n2])
    also have "\<dots> = cells s b" using b by (rule new_list_frame(3) [OF n1])
    finally show "cells s4 b = cells s b" .
  qed
  ultimately show ?thesis using res by simp
qed

text \<open>
  Claim C10. A call leaves its argument as it found it: for every list object that exists
  when the function is called, and so for \<open>chat_history\<close>, the store after the call holds
  the same turns in the same order, whatever the transport does and whether the call
  returns or raises. The window and the request are built in new lists, and the result
  and effects of the call are those of the function on the turns of \<open>chat_history\<close>.
\<close>

theorem chat_history_unchanged:
  assumes "chat_history < next_addr s"
  shows "cells (snd (get_bot_response_store post chat_history s)) chat_history = cells s chat_history \<and>
         (\<forall>b. b < next_addr s \<longrightarrow>
            cells (snd (get_bot_response_store post chat_history s)) b = cells s b) \<and>
         fst (get_bot_response_store post chat_history s) =
           get_bot_response post (cells s chat_history)"
proof -
  obtain a s' where b: "build_payload_store chat_history s = (a, s')"
    by (cases "build_payload_store chat_history s")
  note frame = build_payload_store_frame [OF b]
  have tools: "tools (build_payload xs) = [google_search]" for xs
    by (simp add: build_payload_def)
  have p: "\<lparr>contents = cells s' a, tools = [google_search]\<rparr> = build_payload (cells s chat_history)"
    using frame tools [of "cells s chat_history"] by (cases "build_payload (cells s chat_history)") simp
  have run: "get_bot_response_store post chat_history s =
      (retry_loop post (build_payload (cells s chat_history)) 0 1 \<lparr>sleeps = [], posts = []\<rparr>, s')"
    using b p by (simp add: get_bot_response_store_def)
  from run frame assms show ?thesis
    by (simp add: get_bot_response_def)
qed

theorem chat_history_unchanged_witness:
  "(0::nat) < next_addr session_store \<and>
   cells session_store 0 = history12 \<and>
   cells (snd (get_bot_response_store unreachable 0 session_store)) 0 = history12"
proof -
  have h: "(0::nat) < next_addr session_store" by (simp add: session_store_def)
  have c: "cells session_store 0 = history12" by (simp add: session_store_def)
  from chat_history_unchanged [OF h, of unreachable, THEN conjunct1] c
  have "cells (snd (get_bot_response_store unreachable 0 session_store)) 0 = history12" by simp
  with h c show ?thesis by (intro conjI)
qed

end
